theory Spec2Isabelle
  imports Complex_Main "HOL-Library.Sublist" "HOL-Library.Log_Nat"
begin

chapter \<open>JCC refinement tutor: angle mapping and tutor state machine\<close>

text \<open>
  A shallow embedding of \<^verbatim>\<open>src/script.js\<close>. Every JavaScript function that reads or
  writes the module-level variables becomes a function from simulator state to simulator
  state; the pure helpers become functions on numbers.

  Numbers. JavaScript has one number type, IEEE binary64. The angles the script handles
  are integers of small magnitude (the slider code rounds with \<^verbatim>\<open>Math.round\<close>, and the
  script adds or subtracts 45), so they are modelled as \<^typ>\<open>int\<close>; the cylinder and the
  sphere are multiples of 0.25, which binary64 represents exactly, so they are modelled
  as \<^typ>\<open>rat\<close>. For \<^verbatim>\<open>getDisplayAxis\<close> the binary64 computation is modelled as well,
  with the rounding after each division, product and sum written out; the two agree on
  every integer of magnitude up to \<open>2 ^ 50\<close>, and the binary64 computation keeps its
  shape below \<open>2 ^ 53\<close> and loses it there, where binary64 no longer holds every
  integer.
\<close>

section \<open>Helper functions\<close>

text \<open>\<^verbatim>\<open>Math.round(x)\<close>: the nearest integer, a tie going towards plus infinity.\<close>

definition Math_round :: "rat \<Rightarrow> int" where
  "Math_round x = \<lfloor>x + 1 / 2\<rfloor>"

text \<open>\<^verbatim>\<open>function roundTo5Degrees(angle) { return Math.round(angle / 5) * 5; }\<close>\<close>

definition roundTo5Degrees :: "int \<Rightarrow> int" where
  "roundTo5Degrees angle = Math_round (of_int angle / 5) * 5"

text \<open>
  The JavaScript remainder \<^verbatim>\<open>a % n\<close> truncates: the result has the sign of the dividend
  (\<^verbatim>\<open>-185 % 180\<close> is \<^verbatim>\<open>-5\<close>), unlike \<open>mod\<close> on \<^typ>\<open>int\<close>.
\<close>

definition js_rem :: "int \<Rightarrow> int \<Rightarrow> int" where
  "js_rem a n = sgn a * (\<bar>a\<bar> mod \<bar>n\<bar>)"

text \<open>
  \<^verbatim>\<open>getDisplayAxis\<close> (the spec's \<^verbatim>\<open>toOptometricAxis\<close>): round to 5 degrees, take the
  remainder by 180, lift a negative remainder by 180, and report 0 as 180.
\<close>

definition getDisplayAxis :: "int \<Rightarrow> int" where
  "getDisplayAxis angle =
     (let displayAngle = roundTo5Degrees angle;
          displayAngle = js_rem displayAngle 180;
          displayAngle = (if displayAngle < 0 then displayAngle + 180 else displayAngle)
      in if displayAngle = 0 then 180 else displayAngle)"


section \<open>The angle mapping in binary64\<close>

text \<open>
  The exponent of a positive rational: the integer \<open>e\<close> with
  \<open>2 ^ e \<le> q < 2 ^ (e + 1)\<close>, found from the bit lengths of numerator and
  denominator.
\<close>

definition ilog2 :: "rat \<Rightarrow> int" where
  "ilog2 q =
     (let (a, b) = quotient_of q; d = bitlen a - bitlen b
      in if power_int 2 d \<le> q then d else d - 1)"

text \<open>Rounding to the nearest integer, a tie going to the even one.\<close>

definition roundHalfEven :: "rat \<Rightarrow> int" where
  "roundHalfEven r =
     (let f = \<lfloor>r\<rfloor>; d = r - of_int f
      in if d < 1 / 2 then f else if 1 / 2 < d then f + 1 else if even f then f else f + 1)"

text \<open>
  The binary64 number nearest to a rational: 53 significant bits, ties to even.
  Overflow and subnormal numbers are not modelled.
\<close>

definition round64 :: "rat \<Rightarrow> rat" where
  "round64 q =
     (if q = 0 then 0
      else let ulp = power_int 2 (ilog2 \<bar>q\<bar> - 52)
           in of_int (roundHalfEven (q / ulp)) * ulp)"

text \<open>
  \<^verbatim>\<open>x % y\<close> on numbers that need not be integers: \<open>x\<close> minus \<open>y\<close> times the
  quotient truncated towards zero. The result is exact in binary64.
\<close>

definition js_trunc :: "rat \<Rightarrow> int" where
  "js_trunc z = (if z < 0 then - \<lfloor>- z\<rfloor> else \<lfloor>z\<rfloor>)"

definition js_fmod :: "rat \<Rightarrow> rat \<Rightarrow> rat" where
  "js_fmod x y = x - y * of_int (js_trunc (x / y))"

text \<open>
  \<^verbatim>\<open>roundTo5Degrees\<close> and \<^verbatim>\<open>getDisplayAxis\<close> once more, on binary64 numbers: the
  quotient \<^verbatim>\<open>angle / 5\<close>, the product by 5 and the sum with 180 are each rounded to
  binary64; \<^verbatim>\<open>Math.round\<close> and \<^verbatim>\<open>%\<close> are exact.
\<close>

definition roundTo5Degrees64 :: "rat \<Rightarrow> rat" where
  "roundTo5Degrees64 angle = round64 (of_int (Math_round (round64 (angle / 5))) * 5)"

definition getDisplayAxis64 :: "rat \<Rightarrow> rat" where
  "getDisplayAxis64 angle =
     (let displayAngle = roundTo5Degrees64 angle;
          displayAngle = js_fmod displayAngle 180;
          displayAngle = (if displayAngle < 0 then round64 (displayAngle + 180) else displayAngle)
      in if displayAngle = 0 then 180 else displayAngle)"


section \<open>Rendering numbers\<close>

text \<open>The decimal digits of a natural number, most significant first.\<close>

definition digitChar :: "nat \<Rightarrow> char" where
  "digitChar d = ''0123456789'' ! (d mod 10)"

fun decimalDigits :: "nat \<Rightarrow> string" where
  "decimalDigits n =
     (if n < 10 then [digitChar n] else decimalDigits (n div 10) @ [digitChar (n mod 10)])"

declare decimalDigits.simps [simp del]

text \<open>
  What a template literal prints for an integer-valued number: \<^verbatim>\<open>`${-45}`\<close> is
  \<^verbatim>\<open>"-45"\<close>.
\<close>

definition numberToString :: "int \<Rightarrow> string" where
  "numberToString i =
     (if i < 0 then CHR ''-'' # decimalDigits (nat (- i)) else decimalDigits (nat i))"

text \<open>
  \<^verbatim>\<open>x.toFixed(2)\<close>, after ECMA-262 (Number.prototype.toFixed): the sign is split off,
  \<open>n\<close> is the integer nearest to \<open>100 * \<bar>x\<bar>\<close> (the larger one on a tie), its digits
  are padded with zeros to at least three, and the point goes before the last two. The
  branch for \<open>\<bar>x\<bar> \<ge> 10 ^ 21\<close> (exponent notation) is not modelled: the script never
  gets there.
\<close>

definition toFixed2 :: "rat \<Rightarrow> string" where
  "toFixed2 x =
     (let s = (if x < 0 then ''-'' else '''');
          n = nat \<lfloor>\<bar>x\<bar> * 100 + 1 / 2\<rfloor>;
          m = decimalDigits n;
          m = (if length m \<le> 2 then replicate (3 - length m) CHR ''0'' @ m else m);
          k = length m
      in s @ take (k - 2) m @ ''.'' @ drop (k - 2) m)"

text \<open>The degree sign U+00B0 that the templates append to an axis.\<close>

definition degreeSign :: char where
  "degreeSign = CHR 0xB0"


section \<open>State\<close>

text \<open>The two circular sliders; each one fixes all four arguments that the listeners
  pass to \<^verbatim>\<open>startDrag\<close> (the div, its SVG, its thumb and its update callback).\<close>

datatype slider = JccAxisSlider | LensAxisSlider

text \<open>The controls that \<^verbatim>\<open>disableAllControls\<close> disables.\<close>

datatype control =
    FlipJCC | JccRotation | LensRotation | IncreasePower | DecreasePower
  | ConfirmAxis | ConfirmPower | NotificationOkButton | StartTutorialButton

text \<open>
  The module-level variables of the script, and the parts of the page it writes that the
  properties below read: which controls are disabled, the notification box and the
  callback of its OK button (always \<^verbatim>\<open>nextStep\<close> when set), the timeouts not yet
  run, the text of the angle, power and prescription displays, and the angle at which
  each slider thumb is drawn. The text of the final prescription is \<open>None\<close> until the
  script writes it. Instruction, feedback and welcome texts and the CSS transforms are
  presentation only and are left out.
\<close>

record simulator =
  currentSphere :: rat
  currentCylinder :: rat
  currentAxis :: int
  jccHandleAngle :: int
  jccFlipped :: bool
  tutorStep :: nat
  isDraggingJCC :: bool
  isDraggingLens :: bool
  disabledControls :: "control set"
  notificationHidden :: bool
  notificationOnclick :: bool
  pendingTimeouts :: nat
  lensAxisDisplay :: string
  currentRXDisplay :: string
  cylinderPowerDisplay :: string
  jccAngleDisplay :: string
  jccPositionDisplay :: string
  finalRXDisplay :: "string option"
  jccSliderThumb :: rat
  lensSliderThumb :: rat

text \<open>
  What a pointer event means to a slider: \<open>optometricAxis\<close> is the result of
  \<^verbatim>\<open>svgCoordsToOptometricAxis(getSvgCoordinates(e, svg))\<close>, an integer by its final
  \<^verbatim>\<open>Math.round\<close>, and \<open>rawVisualAngle360\<close> is the angle the thumb is drawn at. Both
  come out of \<^verbatim>\<open>Math.atan2\<close> on floating-point coordinates, which is not modelled.
\<close>

record pointer =
  optometricAxis :: int
  rawVisualAngle360 :: rat

text \<open>The state once the script has been evaluated and before \<^verbatim>\<open>init\<close> runs; the
  texts of the page are not known to the script and are taken as empty.\<close>

definition scriptLoaded :: simulator where
  "scriptLoaded =
     \<lparr>currentSphere = 0, currentCylinder = - 2, currentAxis = 180, jccHandleAngle = 90,
      jccFlipped = False, tutorStep = 0, isDraggingJCC = False, isDraggingLens = False,
      disabledControls = {}, notificationHidden = True, notificationOnclick = False,
      pendingTimeouts = 0, lensAxisDisplay = [], currentRXDisplay = [],
      cylinderPowerDisplay = [], jccAngleDisplay = [], jccPositionDisplay = [],
      finalRXDisplay = None, jccSliderThumb = 0, lensSliderThumb = 0\<rparr>"


section \<open>Display and control gating\<close>

definition setSvgThumbPosition :: "slider \<Rightarrow> rat \<Rightarrow> simulator \<Rightarrow> simulator" where
  "setSvgThumbPosition thumb visualAngle360 s =
     (case thumb of
        JccAxisSlider \<Rightarrow> s\<lparr>jccSliderThumb := visualAngle360\<rparr>
      | LensAxisSlider \<Rightarrow> s\<lparr>lensSliderThumb := visualAngle360\<rparr>)"

text \<open>The prescription line that \<^verbatim>\<open>updateLensDisplay\<close> and step 39 render.\<close>

definition prescriptionText :: "simulator \<Rightarrow> string" where
  "prescriptionText s =
     toFixed2 (currentSphere s) @ '' DS / '' @ toFixed2 (currentCylinder s) @ '' DC x '' @
     numberToString (getDisplayAxis (currentAxis s)) @ [degreeSign]"

definition updateLensDisplay :: "simulator \<Rightarrow> simulator" where
  "updateLensDisplay s =
     setSvgThumbPosition LensAxisSlider (of_int (currentAxis s))
       (s\<lparr>lensAxisDisplay := numberToString (getDisplayAxis (currentAxis s)) @ [degreeSign],
          currentRXDisplay := prescriptionText s,
          cylinderPowerDisplay := toFixed2 (currentCylinder s) @ '' DC''\<rparr>)"

definition updateJCCDisplay :: "simulator \<Rightarrow> simulator" where
  "updateJCCDisplay s =
     setSvgThumbPosition JccAxisSlider (of_int (jccHandleAngle s))
       (s\<lparr>jccPositionDisplay := (if \<not> jccFlipped s then ''Position 1'' else ''Position 2''),
          jccAngleDisplay := numberToString (getDisplayAxis (jccHandleAngle s)) @ [degreeSign]\<rparr>)"

definition disableAllControls :: "simulator \<Rightarrow> simulator" where
  "disableAllControls s =
     s\<lparr>disabledControls :=
         {FlipJCC, JccRotation, LensRotation, IncreasePower, DecreasePower,
          ConfirmAxis, ConfirmPower, NotificationOkButton, StartTutorialButton}\<rparr>"

text \<open>\<^verbatim>\<open>enableControls\<close> has no case for the OK button of the notification.\<close>

fun enableControls :: "control list \<Rightarrow> simulator \<Rightarrow> simulator" where
  "enableControls [] s = s"
| "enableControls (c # cs) s =
     enableControls cs
       (if c = NotificationOkButton then s
        else s\<lparr>disabledControls := disabledControls s - {c}\<rparr>)"

text \<open>\<^verbatim>\<open>showJCCNotification(message, nextStep)\<close>; every call passes \<^verbatim>\<open>nextStep\<close>.\<close>

definition showJCCNotification :: "simulator \<Rightarrow> simulator" where
  "showJCCNotification s =
     (let s = disableAllControls (s\<lparr>notificationHidden := False\<rparr>)
      in s\<lparr>disabledControls := disabledControls s - {NotificationOkButton},
           notificationOnclick := True\<rparr>)"


section \<open>JCC geometry\<close>

definition getJCCRedLineAxis :: "simulator \<Rightarrow> int" where
  "getJCCRedLineAxis s =
     (let redLineOffset = (if \<not> jccFlipped s then - 45 else 45);
          calculatedAxis = jccHandleAngle s + redLineOffset
      in getDisplayAxis calculatedAxis)"

definition getJCCGreenLineAxis :: "simulator \<Rightarrow> int" where
  "getJCCGreenLineAxis s =
     (let greenLineOffset = (if \<not> jccFlipped s then 45 else - 45);
          calculatedAxis = jccHandleAngle s + greenLineOffset
      in getDisplayAxis calculatedAxis)"


section \<open>The tutor flow\<close>

text \<open>The entry action shared by the steps that ask for a flip: enable the flip button,
  set the flip state the step shows, redraw the JCC.\<close>

definition enterFlipStep :: "bool \<Rightarrow> simulator \<Rightarrow> simulator" where
  "enterFlipStep flipped s = updateJCCDisplay ((enableControls [FlipJCC] s)\<lparr>jccFlipped := flipped\<rparr>)"

text \<open>
  \<^verbatim>\<open>nextStep\<close>: count the step, disable every control, then the entry action of the new
  step, case by case as in the source. Step 1 enables the JCC slider from a timeout.
\<close>

definition nextStep :: "simulator \<Rightarrow> simulator" where
  "nextStep s0 =
     (let s = disableAllControls (s0\<lparr>tutorStep := tutorStep s0 + 1\<rparr>);
          n = tutorStep s
      in if n = 1 then s\<lparr>pendingTimeouts := pendingTimeouts s + 1\<rparr>
         else if n = 2 then enterFlipStep False s
         else if n = 3 then showJCCNotification s
         else if n = 4 then enterFlipStep True s
         else if n = 5 then showJCCNotification s
         else if n = 6 then enterFlipStep False s
         else if n = 7 then showJCCNotification s
         else if n = 8 then updateLensDisplay (enableControls [LensRotation] s)
         else if n = 9 then updateJCCDisplay (enableControls [JccRotation] s)
         else if n = 10 then enterFlipStep False s
         else if n = 11 then showJCCNotification s
         else if n = 12 then enterFlipStep True s
         else if n = 13 then showJCCNotification s
         else if n = 14 then enterFlipStep False s
         else if n = 15 then showJCCNotification s
         else if n = 16 then enableControls [ConfirmAxis] s
         else if n = 17 then updateJCCDisplay (enableControls [JccRotation] s)
         else if n = 18 then enterFlipStep False s
         else if n = 19 then showJCCNotification s
         else if n = 20 then enterFlipStep True s
         else if n = 21 then showJCCNotification s
         else if n = 22 then enterFlipStep False s
         else if n = 23 then showJCCNotification s
         else if n = 24 then enableControls [IncreasePower, DecreasePower] s
         else if n = 25 then enterFlipStep False s
         else if n = 26 then showJCCNotification s
         else if n = 27 then enterFlipStep True s
         else if n = 28 then showJCCNotification s
         else if n = 29 then enterFlipStep False s
         else if n = 30 then showJCCNotification s
         else if n = 31 then enableControls [IncreasePower, DecreasePower] s
         else if n = 32 then enterFlipStep False s
         else if n = 33 then showJCCNotification s
         else if n = 34 then enterFlipStep True s
         else if n = 35 then showJCCNotification s
         else if n = 36 then enterFlipStep False s
         else if n = 37 then showJCCNotification s
         else if n = 38 then enableControls [ConfirmPower] s
         else if n = 39 then disableAllControls (s\<lparr>finalRXDisplay := Some (prescriptionText s)\<rparr>)
         else s)"

text \<open>The callback of the timeout set on entering step 1.\<close>

definition timeoutFired :: "simulator \<Rightarrow> simulator" where
  "timeoutFired s =
     (if pendingTimeouts s = 0 then s
      else enableControls [JccRotation] (s\<lparr>pendingTimeouts := pendingTimeouts s - 1\<rparr>))"

definition checkSliderValueForNextStep :: "simulator \<Rightarrow> simulator" where
  "checkSliderValueForNextStep s =
     (if tutorStep s = 1 then (if jccHandleAngle s = 180 then nextStep s else s)
      else if tutorStep s = 8 then (if currentAxis s = 5 then nextStep s else s)
      else if tutorStep s = 9 then (if jccHandleAngle s = 5 then nextStep s else s)
      else if tutorStep s = 17 then
        (let targetPowerRefineJCCHandleAngle = getDisplayAxis (currentAxis s + 45)
         in if jccHandleAngle s = targetPowerRefineJCCHandleAngle then nextStep s else s)
      else s)"


section \<open>Slider interaction\<close>

definition updateJCCRotation :: "int \<Rightarrow> simulator \<Rightarrow> simulator" where
  "updateJCCRotation angle s = s\<lparr>jccHandleAngle := angle\<rparr>"

definition updateLensRotation :: "int \<Rightarrow> simulator \<Rightarrow> simulator" where
  "updateLensRotation angle s = s\<lparr>currentAxis := angle\<rparr>"

text \<open>The \<^verbatim>\<open>updateValueCallback\<close> that the listeners of each slider pass in.\<close>

definition updateValueCallback :: "slider \<Rightarrow> int \<Rightarrow> simulator \<Rightarrow> simulator" where
  "updateValueCallback sliderDiv angle s =
     (case sliderDiv of
        JccAxisSlider \<Rightarrow> updateJCCRotation angle s
      | LensAxisSlider \<Rightarrow> updateLensRotation angle s)"

definition sliderDisabled :: "slider \<Rightarrow> simulator \<Rightarrow> bool" where
  "sliderDisabled sliderDiv s =
     (case sliderDiv of
        JccAxisSlider \<Rightarrow> JccRotation \<in> disabledControls s
      | LensAxisSlider \<Rightarrow> LensRotation \<in> disabledControls s)"

text \<open>
  \<^verbatim>\<open>startDrag\<close>, without the registration of the move and release listeners on the
  document: they are the next two functions, which the browser calls.
\<close>

definition startDrag :: "slider \<Rightarrow> pointer \<Rightarrow> simulator \<Rightarrow> simulator" where
  "startDrag sliderDiv e s =
     (if sliderDisabled sliderDiv s then s
      else
        let s = (case sliderDiv of
                   JccAxisSlider \<Rightarrow> s\<lparr>isDraggingJCC := True\<rparr>
                 | LensAxisSlider \<Rightarrow> s\<lparr>isDraggingLens := True\<rparr>);
            s = setSvgThumbPosition sliderDiv (rawVisualAngle360 e) s
        in updateValueCallback sliderDiv (getDisplayAxis (optometricAxis e)) s)"

text \<open>The \<^verbatim>\<open>moveHandler\<close> closure of a drag on \<open>sliderDiv\<close>.\<close>

definition moveHandler :: "slider \<Rightarrow> pointer \<Rightarrow> simulator \<Rightarrow> simulator" where
  "moveHandler sliderDiv moveEvent s =
     (if \<not> isDraggingJCC s \<and> \<not> isDraggingLens s then s
      else
        let newOptometricAxis = optometricAxis moveEvent;
            s = updateValueCallback sliderDiv newOptometricAxis s;
            s = setSvgThumbPosition sliderDiv (rawVisualAngle360 moveEvent) s
        in case sliderDiv of
             JccAxisSlider \<Rightarrow>
               s\<lparr>jccAngleDisplay := numberToString (getDisplayAxis newOptometricAxis) @ [degreeSign]\<rparr>
           | LensAxisSlider \<Rightarrow>
               s\<lparr>lensAxisDisplay := numberToString (getDisplayAxis newOptometricAxis) @ [degreeSign]\<rparr>)"

text \<open>The \<^verbatim>\<open>upHandler\<close> closure of a drag on \<open>sliderDiv\<close>.\<close>

definition upHandler :: "slider \<Rightarrow> simulator \<Rightarrow> simulator" where
  "upHandler sliderDiv s =
     (let s = s\<lparr>isDraggingJCC := False, isDraggingLens := False\<rparr>;
          s = (case sliderDiv of
                 JccAxisSlider \<Rightarrow>
                   updateJCCDisplay (s\<lparr>jccHandleAngle := getDisplayAxis (jccHandleAngle s)\<rparr>)
               | LensAxisSlider \<Rightarrow>
                   updateLensDisplay (s\<lparr>currentAxis := getDisplayAxis (currentAxis s)\<rparr>))
      in checkSliderValueForNextStep s)"


section \<open>Button listeners and initialisation\<close>

text \<open>The assignment \<^verbatim>\<open>jccFlipped = !jccFlipped\<close> of the flip listener.\<close>

definition toggleFlipped :: "simulator \<Rightarrow> simulator" where
  "toggleFlipped s = s\<lparr>jccFlipped := \<not> jccFlipped s\<rparr>"

definition flipJCCClick :: "simulator \<Rightarrow> simulator" where
  "flipJCCClick s =
     (if FlipJCC \<in> disabledControls s then s
      else nextStep (updateJCCDisplay (toggleFlipped s)))"

definition increasePowerClick :: "simulator \<Rightarrow> simulator" where
  "increasePowerClick s =
     (let s = updateLensDisplay (s\<lparr>currentCylinder := currentCylinder s - 1 / 4\<rparr>)
      in if tutorStep s = 24 \<or> tutorStep s = 31 then nextStep s else s)"

definition decreasePowerClick :: "simulator \<Rightarrow> simulator" where
  "decreasePowerClick s = updateLensDisplay (s\<lparr>currentCylinder := currentCylinder s + 1 / 4\<rparr>)"

definition confirmAxisClick :: "simulator \<Rightarrow> simulator" where
  "confirmAxisClick s = (if tutorStep s = 16 \<and> currentAxis s = 5 then nextStep s else s)"

definition confirmPowerClick :: "simulator \<Rightarrow> simulator" where
  "confirmPowerClick s =
     (if tutorStep s = 38 \<and> currentCylinder s = - (5 / 2) then nextStep s else s)"

definition startTutorialClick :: "simulator \<Rightarrow> simulator" where
  "startTutorialClick s =
     nextStep (s\<lparr>disabledControls := insert StartTutorialButton (disabledControls s)\<rparr>)"

text \<open>The \<^verbatim>\<open>onclick\<close> that \<^verbatim>\<open>showJCCNotification\<close> installs on the OK button; it is
  \<^verbatim>\<open>null\<close> otherwise.\<close>

definition notificationOkClick :: "simulator \<Rightarrow> simulator" where
  "notificationOkClick s =
     (if notificationOnclick s
      then nextStep (s\<lparr>notificationHidden := True, notificationOnclick := False\<rparr>)
      else s)"

definition init :: "simulator \<Rightarrow> simulator" where
  "init s =
     (let s = s\<lparr>currentSphere := 0, currentCylinder := - 2, currentAxis := 180,
                jccHandleAngle := 90\<rparr>;
          s = updateLensDisplay s;
          s = updateJCCDisplay s;
          s = disableAllControls s
      in enableControls [StartTutorialButton] s)"

text \<open>
  The events the browser can deliver, each to the listener above, and a session: the
  page loads, \<^verbatim>\<open>init\<close> runs, then events arrive one at a time. Nothing is assumed of
  the order of the events, nor that the browser withholds them from a disabled control.
\<close>

datatype event =
    StartTutorial | NotificationOk | FlipJCCButton | IncreasePowerButton
  | DecreasePowerButton | ConfirmAxisButton | ConfirmPowerButton
  | DragStart slider pointer | DragMove slider pointer | DragRelease slider
  | Timeout

fun deliver :: "event \<Rightarrow> simulator \<Rightarrow> simulator" where
  "deliver StartTutorial s = startTutorialClick s"
| "deliver NotificationOk s = notificationOkClick s"
| "deliver FlipJCCButton s = flipJCCClick s"
| "deliver IncreasePowerButton s = increasePowerClick s"
| "deliver DecreasePowerButton s = decreasePowerClick s"
| "deliver ConfirmAxisButton s = confirmAxisClick s"
| "deliver ConfirmPowerButton s = confirmPowerClick s"
| "deliver (DragStart sliderDiv e) s = startDrag sliderDiv e s"
| "deliver (DragMove sliderDiv e) s = moveHandler sliderDiv e s"
| "deliver (DragRelease sliderDiv) s = upHandler sliderDiv s"
| "deliver Timeout s = timeoutFired s"

fun session :: "event list \<Rightarrow> simulator \<Rightarrow> simulator" where
  "session [] s = s"
| "session (e # es) s = session es (deliver e s)"

text \<open>
  The path the tutorial asks for, from the start button to the final prescription: the
  three drags each end on the angle the step wants, and the power is increased twice.
\<close>

definition dragTo :: "slider \<Rightarrow> int \<Rightarrow> event list" where
  "dragTo sliderDiv a =
     [DragStart sliderDiv \<lparr>optometricAxis = 90, rawVisualAngle360 = 270\<rparr>,
      DragMove sliderDiv \<lparr>optometricAxis = a, rawVisualAngle360 = 360 - of_int a\<rparr>,
      DragRelease sliderDiv]"

definition threeFlips :: "event list" where
  "threeFlips =
     [FlipJCCButton, NotificationOk, FlipJCCButton, NotificationOk, FlipJCCButton, NotificationOk]"

definition scriptedPath :: "event list" where
  "scriptedPath =
     [StartTutorial, Timeout] @ dragTo JccAxisSlider 179 @ threeFlips @
     dragTo LensAxisSlider 4 @ dragTo JccAxisSlider 6 @ threeFlips @ [ConfirmAxisButton] @
     dragTo JccAxisSlider 51 @ threeFlips @ [IncreasePowerButton] @ threeFlips @
     [IncreasePowerButton] @ threeFlips @ [ConfirmPowerButton]"

text \<open>
  A drag of the JCC slider at step 1, after the press and before the release, and two
  pointer moves that follow it.
\<close>

definition dragStarted :: simulator where
  "dragStarted =
     session [StartTutorial, Timeout,
              DragStart JccAxisSlider \<lparr>optometricAxis = 90, rawVisualAngle360 = 270\<rparr>]
       (init scriptLoaded)"

definition previewMoves :: "pointer list" where
  "previewMoves =
     [\<lparr>optometricAxis = 37, rawVisualAngle360 = 323\<rparr>,
      \<lparr>optometricAxis = 179, rawVisualAngle360 = 181\<rparr>]"


text \<open>The sphere is plano and every prescription line on the page says so.\<close>

definition planoRendered :: "simulator \<Rightarrow> bool" where
  "planoRendered s \<longleftrightarrow>
     currentSphere s = 0 \<and> prefix ''0.00 DS'' (currentRXDisplay s) \<and>
     (case finalRXDisplay s of None \<Rightarrow> True | Some t \<Rightarrow> prefix ''0.00 DS'' t)"



section \<open>Properties of the angle mapping\<close>

lemma Math_round_fifth: "Math_round (of_int a / 5) = (a + 2) div 5"
proof -
  have "(of_int a / 5 + 1 / 2 :: rat) = of_int (2 * a + 5) / of_int 10" by simp
  then have "Math_round (of_int a / 5) = (2 * a + 5) div 10"
    unfolding Math_round_def by (simp only: floor_divide_of_int_eq)
  also have "\<dots> = (a + 2) div 5" by presburger
  finally show ?thesis .
qed

lemma roundTo5Degrees_eq: "roundTo5Degrees a = (a + 2) div 5 * 5"
  by (simp add: roundTo5Degrees_def Math_round_fifth)

text \<open>Lifting a negative truncated remainder by the modulus gives the floored remainder.\<close>

lemma js_rem_fold:
  assumes "0 < n"
  shows "(if js_rem a n < 0 then js_rem a n + n else js_rem a n) = a mod n"
proof (cases "0 \<le> a")
  case True
  have "0 \<le> a mod n" using assms by simp
  with assms True show ?thesis by (simp add: js_rem_def sgn_if not_less)
next
  case False
  define b where "b = - a"
  with False have b: "0 < b" "a = - b" by simp_all
  have "0 \<le> b mod n" using assms by simp
  with assms b show ?thesis
    by (simp add: js_rem_def sgn_if zmod_zminus1_eq_if not_less order_less_le)
qed

lemma getDisplayAxis_eq:
  "getDisplayAxis a =
     (if (a + 2) div 5 * 5 mod 180 = 0 then 180 else (a + 2) div 5 * 5 mod 180)"
  using js_rem_fold [of 180 "(a + 2) div 5 * 5"]
  by (simp add: getDisplayAxis_def roundTo5Degrees_eq Let_def)

lemma getDisplayAxis_canonical:
  assumes "5 dvd g" "0 < g" "g \<le> 180"
  shows "getDisplayAxis g = g"
proof -
  from assms(1) obtain k where k: "g = 5 * k" ..
  have r: "(g + 2) div 5 * 5 = g" unfolding k by simp
  show ?thesis
  proof (cases "g = 180")
    case True
    then show ?thesis by (simp add: getDisplayAxis_eq)
  next
    case False
    with assms have "g mod 180 = g" by simp
    with assms r show ?thesis by (simp add: getDisplayAxis_eq)
  qed
qed

lemma getDisplayAxis_dvd: "5 dvd getDisplayAxis a"
proof -
  have "5 dvd (a + 2) div 5 * 5 mod 180"
    by (rule dvd_mod) simp_all
  then show ?thesis by (simp add: getDisplayAxis_eq)
qed

lemma getDisplayAxis_bounds: "5 \<le> getDisplayAxis a \<and> getDisplayAxis a \<le> 180"
proof -
  have u: "getDisplayAxis a \<le> 180" "0 < getDisplayAxis a"
    using pos_mod_bound [of 180 "(a + 2) div 5 * 5"] pos_mod_sign [of 180 "(a + 2) div 5 * 5"]
    by (simp_all add: getDisplayAxis_eq order_less_le)
  from getDisplayAxis_dvd [of a] obtain k where "getDisplayAxis a = 5 * k" ..
  with u show ?thesis by simp
qed

lemma getDisplayAxis_shift: "getDisplayAxis (a + 180) = getDisplayAxis a"
proof -
  have "(a + 180 + 2) div 5 = (a + 2) div 5 + 36" by simp
  then have "(a + 180 + 2) div 5 * 5 mod 180 = (a + 2) div 5 * 5 mod 180"
    by (simp add: algebra_simps)
  then show ?thesis by (simp only: getDisplayAxis_eq)
qed

text \<open>
  Claim C4. For every integer \<open>a\<close> from -1000 to 1000, \<open>getDisplayAxis a\<close> is a multiple
  of 5 between 5 and 180 and equals \<open>getDisplayAxis (a + 180)\<close>; and 0, 180 and 360 all
  map to 180, so an angle that folds to 0 is reported as 180.
\<close>

theorem getDisplayAxis_range_and_period:
  "(- 1000 \<le> a \<and> a \<le> 1000 \<longrightarrow>
      5 dvd getDisplayAxis a \<and> 5 \<le> getDisplayAxis a \<and> getDisplayAxis a \<le> 180 \<and>
      getDisplayAxis a = getDisplayAxis (a + 180)) \<and>
   getDisplayAxis 0 = 180 \<and> getDisplayAxis 180 = 180 \<and> getDisplayAxis 360 = 180"
proof -
  have "getDisplayAxis 0 = 180" "getDisplayAxis 180 = 180" "getDisplayAxis 360 = 180"
    by code_simp+
  then show ?thesis
    using getDisplayAxis_dvd [of a] getDisplayAxis_bounds [of a] getDisplayAxis_shift [of a]
    by simp
qed

theorem getDisplayAxis_range_and_period_witness:
  "- 1000 \<le> (- 183 :: int) \<and> (- 183 :: int) \<le> 1000 \<and>
   5 dvd getDisplayAxis (- 183) \<and> 5 \<le> getDisplayAxis (- 183) \<and>
   getDisplayAxis (- 183) \<le> 180 \<and> getDisplayAxis (- 183) = getDisplayAxis (- 183 + 180)"
proof -
  have r: "- 1000 \<le> (- 183 :: int) \<and> (- 183 :: int) \<le> 1000" by simp
  from getDisplayAxis_range_and_period [of "- 183"] r show ?thesis by blast
qed

text \<open>On exact integers folding twice is folding once.\<close>

lemma getDisplayAxis_fold_fixed:
  "getDisplayAxis (getDisplayAxis x) = getDisplayAxis x"
  using getDisplayAxis_bounds [of x] by (intro getDisplayAxis_canonical getDisplayAxis_dvd) simp_all


section \<open>Binary64 rounding and its agreement with the integer model\<close>

lemma quotient_parts:
  assumes "0 < q"
  obtains a b where "quotient_of q = (a, b)" "0 < a" "0 < b" "q = of_int a / of_int b"
proof -
  obtain a b where ab: "quotient_of q = (a, b)" by (cases "quotient_of q")
  have b: "0 < b" using quotient_of_denom_pos [OF ab] .
  have q: "q = of_int a / of_int b" using quotient_of_div [OF ab] .
  from assms b have a: "0 < a" unfolding q by (simp add: zero_less_divide_iff)
  from that [OF ab a b q] show ?thesis .
qed

lemma power_int_bitlen:
  assumes "0 < x"
  shows "power_int 2 (bitlen x - 1) \<le> (of_int x :: rat)" "(of_int x :: rat) < power_int 2 (bitlen x)"
proof -
  from assms have l: "1 \<le> bitlen x"
    using bitlen_eq_zero_iff [of x] bitlen_nonneg [of x] by linarith
  from bitlen_bounds [OF assms]
  have "(of_int (2 ^ nat (bitlen x - 1)) :: rat) \<le> of_int x" "(of_int x :: rat) < of_int (2 ^ nat (bitlen x))"
    by (simp_all only: of_int_le_iff of_int_less_iff)
  with l show "power_int 2 (bitlen x - 1) \<le> (of_int x :: rat)"
    "(of_int x :: rat) < power_int 2 (bitlen x)"
    by (simp_all add: power_int_def)
qed

lemma ilog2_bounds:
  assumes "0 < q"
  shows "power_int 2 (ilog2 q) \<le> q" "q < power_int 2 (ilog2 q + 1)"
proof -
  from assms obtain a b where ab: "quotient_of q = (a, b)" "0 < a" "0 < b"
    and q: "q = of_int a / of_int b"
    by (rule quotient_parts)
  define d where "d = bitlen a - bitlen b"
  have low: "power_int 2 (d - 1) \<le> q"
  proof -
    have "power_int (2 :: rat) (d - 1) = power_int 2 (bitlen a - 1) / power_int 2 (bitlen b)"
      unfolding d_def using power_int_diff [of "2 :: rat" "bitlen a - 1" "bitlen b"]
      by (simp add: algebra_simps)
    also have "\<dots> \<le> of_int a / of_int b"
      using power_int_bitlen [OF ab(2)] power_int_bitlen [OF ab(3)] ab
      by (intro frac_le) simp_all
    finally show ?thesis unfolding q .
  qed
  have up: "q < power_int 2 (d + 1)"
  proof -
    have "of_int a / of_int b < power_int (2 :: rat) (bitlen a) / power_int 2 (bitlen b - 1)"
      using power_int_bitlen [OF ab(2)] power_int_bitlen [OF ab(3)] ab
      by (intro frac_less) simp_all
    also have "\<dots> = power_int 2 (d + 1)"
      unfolding d_def using power_int_diff [of "2 :: rat" "bitlen a" "bitlen b - 1"]
      by (simp add: algebra_simps)
    finally show ?thesis unfolding q .
  qed
  have e: "ilog2 q = (if power_int 2 d \<le> q then d else d - 1)"
    by (simp add: ilog2_def ab d_def)
  show "power_int 2 (ilog2 q) \<le> q" using low by (simp add: e)
  show "q < power_int 2 (ilog2 q + 1)" using up by (simp add: e not_le)
qed

lemma roundHalfEven_error: "\<bar>of_int (roundHalfEven r) - r\<bar> \<le> 1 / 2"
proof -
  have "of_int \<lfloor>r\<rfloor> \<le> r" "r < of_int \<lfloor>r\<rfloor> + 1" by linarith+
  then show ?thesis by (auto simp add: roundHalfEven_def Let_def)
qed

lemma roundHalfEven_of_int: "roundHalfEven (of_int n) = n"
  by (simp add: roundHalfEven_def)

lemma round64_error:
  assumes "q \<noteq> 0"
  shows "\<bar>round64 q - q\<bar> \<le> power_int 2 (ilog2 \<bar>q\<bar> - 52) / 2"
proof -
  define u :: rat where "u = power_int 2 (ilog2 \<bar>q\<bar> - 52)"
  have u: "0 < u" by (simp add: u_def)
  have "round64 q - q = u * (of_int (roundHalfEven (q / u)) - q / u)"
    using assms u by (simp add: round64_def u_def [symmetric] Let_def algebra_simps)
  then have "\<bar>round64 q - q\<bar> = u * \<bar>of_int (roundHalfEven (q / u)) - q / u\<bar>"
    using u by (simp add: abs_mult)
  also have "\<dots> \<le> u * (1 / 2)"
    using u roundHalfEven_error [of "q / u"] by (intro mult_left_mono) simp_all
  finally show ?thesis by (simp add: u_def)
qed

lemma round64_small:
  assumes "\<bar>q\<bar> < 2 ^ 48"
  shows "\<bar>round64 q - q\<bar> \<le> 1 / 64"
proof (cases "q = 0")
  case True
  then show ?thesis by (simp add: round64_def)
next
  case False
  then have p: "0 < \<bar>q\<bar>" by simp
  have "power_int 2 (ilog2 \<bar>q\<bar>) < power_int (2 :: rat) 48"
    using ilog2_bounds(1) [OF p] assms by simp
  then have "ilog2 \<bar>q\<bar> < 48" by (rule power_int_le_imp_less_exp [rotated]) simp_all
  then have "power_int (2 :: rat) (ilog2 \<bar>q\<bar> - 52) \<le> power_int 2 (- 5)"
    by (intro power_int_increasing) simp_all
  then have "power_int (2 :: rat) (ilog2 \<bar>q\<bar> - 52) / 2 \<le> 1 / 64"
    by (simp add: power_int_minus)
  with round64_error [OF False] show ?thesis by linarith
qed

lemma round64_of_int:
  assumes "\<bar>n\<bar> < 2 ^ 53"
  shows "round64 (of_int n) = of_int n"
proof (cases "n = 0")
  case True
  then show ?thesis by (simp add: round64_def)
next
  case False
  define q :: rat where "q = of_int n"
  from False have p: "0 < \<bar>q\<bar>" by (simp add: q_def)
  have "\<bar>q\<bar> < 2 ^ 53"
    using assms unfolding q_def by (metis of_int_abs of_int_less_numeral_power_cancel_iff)
  then have "power_int 2 (ilog2 \<bar>q\<bar>) < power_int (2 :: rat) 53"
    using ilog2_bounds(1) [OF p] by simp
  then have e: "ilog2 \<bar>q\<bar> < 53" by (rule power_int_le_imp_less_exp [rotated]) simp_all
  define k where "k = nat (52 - ilog2 \<bar>q\<bar>)"
  have u: "power_int (2 :: rat) (ilog2 \<bar>q\<bar> - 52) = inverse (2 ^ k)"
  proof -
    have "ilog2 \<bar>q\<bar> - 52 = - int k" using e by (simp add: k_def)
    then show ?thesis by (simp only: power_int_minus power_int_of_nat)
  qed
  have "q / inverse (2 ^ k) = of_int (n * 2 ^ k)" by (simp add: q_def field_simps)
  then have r: "roundHalfEven (q / inverse (2 ^ k)) = n * 2 ^ k"
    by (simp only: roundHalfEven_of_int)
  from p have "q \<noteq> 0" by simp
  then have "round64 q = of_int (n * 2 ^ k) * inverse (2 ^ k)"
    by (simp only: round64_def u Let_def r if_False)
  then show ?thesis by (simp add: q_def)
qed

lemma js_trunc_of_int: "js_trunc (of_int n / 180) = sgn n * (\<bar>n\<bar> div 180)"
proof (cases "0 \<le> n")
  case True
  then have "\<not> (of_int n / 180 :: rat) < 0" by (simp add: not_less)
  moreover have "\<lfloor>(of_int n :: rat) / of_int 180\<rfloor> = n div 180"
    by (rule floor_divide_of_int_eq)
  ultimately show ?thesis using True by (simp add: js_trunc_def sgn_if)
next
  case False
  then have "(of_int n / 180 :: rat) < 0" by simp
  moreover have "- (of_int n / 180 :: rat) = of_int (- n) / of_int 180" by simp
  moreover have "\<lfloor>(of_int (- n) :: rat) / of_int 180\<rfloor> = (- n) div 180"
    by (rule floor_divide_of_int_eq)
  ultimately have "js_trunc (of_int n / 180) = - ((- n) div 180)"
    by (simp only: js_trunc_def if_True)
  with False show ?thesis by (simp add: sgn_if)
qed

lemma js_fmod_of_int: "js_fmod (of_int n) 180 = of_int (js_rem n 180)"
proof -
  have "\<bar>n\<bar> mod 180 = \<bar>n\<bar> - 180 * (\<bar>n\<bar> div 180)"
    by (simp add: minus_mult_div_eq_mod)
  then have "js_rem n 180 = sgn n * (\<bar>n\<bar> - 180 * (\<bar>n\<bar> div 180))"
    by (simp add: js_rem_def)
  also have "\<dots> = sgn n * \<bar>n\<bar> - 180 * (sgn n * (\<bar>n\<bar> div 180))"
    by (simp add: algebra_simps)
  also have "sgn n * \<bar>n\<bar> = n" by (rule mult_sgn_abs)
  finally show ?thesis by (simp add: js_fmod_def js_trunc_of_int)
qed

lemma Math_round_round64_fifth:
  assumes "\<bar>a\<bar> \<le> 2 ^ 50"
  shows "Math_round (round64 (of_int a / 5)) = (a + 2) div 5"
proof -
  define k where "k = (a + 2) div 5"
  define d where "d = round64 (of_int a / 5)"
  have "5 * k \<le> a + 2" "a + 2 \<le> 5 * k + 4" unfolding k_def by presburger+
  then have "(of_int (5 * k) :: rat) \<le> of_int (a + 2)" "(of_int (a + 2) :: rat) \<le> of_int (5 * k + 4)"
    by (simp_all only: of_int_le_iff)
  then have q: "(of_int k :: rat) - 2 / 5 \<le> of_int a / 5" "(of_int a :: rat) / 5 \<le> of_int k + 2 / 5"
    by simp_all
  have "\<bar>(of_int a :: rat)\<bar> \<le> 2 ^ 50"
    using assms by (metis of_int_abs of_int_le_numeral_power_cancel_iff)
  then have "\<bar>(of_int a :: rat) / 5\<bar> < 2 ^ 48" by simp
  then have "\<bar>d - of_int a / 5\<bar> \<le> 1 / 64" unfolding d_def by (rule round64_small)
  with q have "of_int k \<le> d + 1 / 2" "d + 1 / 2 < of_int k + 1" by linarith+
  then have "\<lfloor>d + 1 / 2\<rfloor> = k" by (rule floor_unique)
  then show ?thesis by (simp add: Math_round_def d_def k_def)
qed

lemma roundTo5Degrees64_of_int:
  assumes "\<bar>a\<bar> \<le> 2 ^ 50"
  shows "roundTo5Degrees64 (of_int a) = of_int (roundTo5Degrees a)"
proof -
  have "\<bar>(a + 2) div 5 * 5\<bar> \<le> \<bar>a\<bar> + 2" by presburger
  with assms have "\<bar>(a + 2) div 5 * 5\<bar> < 2 ^ 53" by simp
  then have "round64 (of_int ((a + 2) div 5 * 5)) = of_int ((a + 2) div 5 * 5)"
    by (rule round64_of_int)
  then show ?thesis
    by (simp add: roundTo5Degrees64_def Math_round_round64_fifth [OF assms] roundTo5Degrees_eq)
qed

lemma getDisplayAxis64_of_int:
  assumes "\<bar>a\<bar> \<le> 2 ^ 50"
  shows "getDisplayAxis64 (of_int a) = of_int (getDisplayAxis a)"
proof -
  define r where "r = js_rem (roundTo5Degrees a) 180"
  have "\<bar>r\<bar> < 180"
    unfolding r_def js_rem_def by (simp add: abs_mult abs_sgn_eq)
  then have "\<bar>r + 180\<bar> < 2 ^ 53" by simp
  then have e: "round64 (of_int (r + 180)) = of_int (r + 180)" by (rule round64_of_int)
  have "getDisplayAxis64 (of_int a) =
      (let displayAngle = (of_int r :: rat);
           displayAngle = (if displayAngle < 0 then round64 (displayAngle + 180) else displayAngle)
       in if displayAngle = 0 then 180 else displayAngle)"
    by (simp only: getDisplayAxis64_def roundTo5Degrees64_of_int [OF assms] js_fmod_of_int r_def Let_def)
  also have "\<dots> = of_int (getDisplayAxis a)"
    using e by (simp add: getDisplayAxis_def r_def [symmetric] Let_def)
  finally show ?thesis .
qed

lemma round64_below_2_51:
  assumes "\<bar>q\<bar> < 2 ^ 51"
  shows "\<bar>round64 q - q\<bar> \<le> 1 / 8"
proof (cases "q = 0")
  case True
  then show ?thesis by (simp add: round64_def)
next
  case False
  then have p: "0 < \<bar>q\<bar>" by simp
  have "power_int 2 (ilog2 \<bar>q\<bar>) < power_int (2 :: rat) 51"
    using ilog2_bounds(1) [OF p] assms by simp
  then have "ilog2 \<bar>q\<bar> < 51" by (rule power_int_le_imp_less_exp [rotated]) simp_all
  then have "power_int (2 :: rat) (ilog2 \<bar>q\<bar> - 52) \<le> power_int 2 (- 2)"
    by (intro power_int_increasing) simp_all
  then have "power_int (2 :: rat) (ilog2 \<bar>q\<bar> - 52) / 2 \<le> 1 / 8"
    by (simp add: power_int_minus)
  with round64_error [OF False] show ?thesis by linarith
qed

lemma roundTo5Degrees64_multiple:
  assumes "\<bar>x\<bar> < 2 ^ 53"
  obtains m where "roundTo5Degrees64 (of_int x) = of_int (5 * m)"
proof -
  define d where "d = round64 (of_int x / 5)"
  define m where "m = Math_round d"
  have x: "- 9007199254740991 \<le> x" "x \<le> 9007199254740991" using assms by simp_all
  then have "(of_int (- 9007199254740991) :: rat) \<le> of_int x"
    "(of_int x :: rat) \<le> of_int 9007199254740991"
    by (simp_all only: of_int_le_iff)
  then have xr: "- 9007199254740991 \<le> (of_int x :: rat)" "(of_int x :: rat) \<le> 9007199254740991"
    by simp_all
  then have "\<bar>(of_int x :: rat) / 5\<bar> < 2 ^ 51" by simp
  then have e: "\<bar>d - of_int x / 5\<bar> \<le> 1 / 8" unfolding d_def by (rule round64_below_2_51)
  have "of_int m \<le> d + 1 / 2" "d + 1 / 2 < of_int m + 1"
    unfolding m_def Math_round_def by linarith+
  with e xr have "(of_int m :: rat) < 1801439850948199" "- 1801439850948199 < (of_int m :: rat)"
    by linarith+
  then have "(of_int m :: rat) < of_int 1801439850948199" "(of_int (- 1801439850948199) :: rat) < of_int m"
    by simp_all
  then have "m < 1801439850948199" "- 1801439850948199 < m"
    by (simp_all only: of_int_less_iff)
  then have "\<bar>m * 5\<bar> < 2 ^ 53" by simp
  then have "round64 (of_int (m * 5)) = of_int (m * 5)" by (rule round64_of_int)
  then have "roundTo5Degrees64 (of_int x) = of_int (5 * m)"
    by (simp add: roundTo5Degrees64_def d_def m_def mult.commute)
  then show ?thesis by (rule that)
qed

lemma getDisplayAxis64_after_rounding:
  assumes "roundTo5Degrees64 a = of_int (5 * m)"
  shows "getDisplayAxis64 a = of_int (getDisplayAxis (5 * m))"
proof -
  define r where "r = js_rem (5 * m) 180"
  have "\<bar>r\<bar> < 180"
    unfolding r_def js_rem_def by (simp add: abs_mult abs_sgn_eq)
  then have "\<bar>r + 180\<bar> < 2 ^ 53" by simp
  then have e: "round64 (of_int (r + 180)) = of_int (r + 180)" by (rule round64_of_int)
  have f: "roundTo5Degrees (5 * m) = 5 * m" by (simp add: roundTo5Degrees_eq)
  have "getDisplayAxis64 a =
      (let displayAngle = (of_int r :: rat);
           displayAngle = (if displayAngle < 0 then round64 (displayAngle + 180) else displayAngle)
       in if displayAngle = 0 then 180 else displayAngle)"
    by (simp only: getDisplayAxis64_def assms js_fmod_of_int r_def Let_def)
  also have "\<dots> = of_int (getDisplayAxis (5 * m))"
    using e by (simp add: getDisplayAxis_def f r_def [symmetric] Let_def)
  finally show ?thesis .
qed

text \<open>
  Claim C8, as stated for every integer, fails in binary64. For the angle \<open>2 ^ 53\<close> the
  quotient by 5 rounds to a number ending in .5, \<^verbatim>\<open>Math.round\<close> takes it up, and the
  product by 5 is odd and beyond \<open>2 ^ 53\<close>, so it rounds to a neighbour that is not a
  multiple of 5: the axis comes out as 36, and folding 36 again gives 35.
\<close>

theorem getDisplayAxis64_breaks_at_2_53:
  "getDisplayAxis64 (2 ^ 53) = 36 \<and> getDisplayAxis64 (getDisplayAxis64 (2 ^ 53)) = 35"
  by code_simp

text \<open>
  Claim C8, amended. For every integer angle \<open>x\<close> of magnitude below \<open>2 ^ 53\<close>,
  \<open>getDisplayAxis\<close> computed in binary64 is idempotent: folding the folded angle again
  changes nothing. For magnitudes up to \<open>2 ^ 50\<close> the binary64 result is moreover the
  exact integer folding.
\<close>

theorem getDisplayAxis64_idempotent:
  assumes "\<bar>x\<bar> < 2 ^ 53"
  shows "getDisplayAxis64 (getDisplayAxis64 (of_int x)) = getDisplayAxis64 (of_int x) \<and>
     (\<bar>x\<bar> \<le> 2 ^ 50 \<longrightarrow> getDisplayAxis64 (of_int x) = of_int (getDisplayAxis x))"
proof -
  from assms obtain m where "roundTo5Degrees64 (of_int x) = of_int (5 * m)"
    by (rule roundTo5Degrees64_multiple)
  then have g: "getDisplayAxis64 (of_int x) = of_int (getDisplayAxis (5 * m))"
    by (rule getDisplayAxis64_after_rounding)
  have "\<bar>getDisplayAxis (5 * m)\<bar> \<le> 2 ^ 50" using getDisplayAxis_bounds [of "5 * m"] by simp
  then have "getDisplayAxis64 (of_int (getDisplayAxis (5 * m))) =
      of_int (getDisplayAxis (getDisplayAxis (5 * m)))"
    by (rule getDisplayAxis64_of_int)
  then have "getDisplayAxis64 (getDisplayAxis64 (of_int x)) = getDisplayAxis64 (of_int x)"
    by (simp only: g getDisplayAxis_fold_fixed)
  then show ?thesis using getDisplayAxis64_of_int [of x] by blast
qed

theorem getDisplayAxis64_idempotent_witness:
  "\<bar>2 ^ 53 - 1 :: int\<bar> < 2 ^ 53 \<and>
   getDisplayAxis64 (of_int (2 ^ 53 - 1)) = 30 \<and>
   getDisplayAxis64 (getDisplayAxis64 (of_int (2 ^ 53 - 1))) = getDisplayAxis64 (of_int (2 ^ 53 - 1)) \<and>
   \<bar>- 183 :: int\<bar> \<le> 2 ^ 50 \<and> getDisplayAxis64 (of_int (- 183)) = of_int (getDisplayAxis (- 183))"
proof -
  have b: "\<bar>2 ^ 53 - 1 :: int\<bar> < 2 ^ 53" "\<bar>- 183 :: int\<bar> < 2 ^ 53" "\<bar>- 183 :: int\<bar> \<le> 2 ^ 50"
    by simp_all
  have v: "getDisplayAxis64 (of_int (2 ^ 53 - 1)) = 30" by code_simp
  from getDisplayAxis64_idempotent [OF b(1)] getDisplayAxis64_idempotent [OF b(2)] b v
  show ?thesis by blast
qed


section \<open>Frame and step lemmas for the tutor flow\<close>

lemmas display_defs = updateJCCDisplay_def updateLensDisplay_def disableAllControls_def
  setSvgThumbPosition_def showJCCNotification_def enterFlipStep_def

lemma nextStep_tutorStep: "tutorStep (nextStep s) = tutorStep s + 1"
  by (simp add: nextStep_def Let_def display_defs)

lemma nextStep_values:
  "currentSphere (nextStep s) = currentSphere s"
  "currentCylinder (nextStep s) = currentCylinder s"
  "currentAxis (nextStep s) = currentAxis s"
  "jccHandleAngle (nextStep s) = jccHandleAngle s"
  by (simp_all add: nextStep_def Let_def display_defs)

lemma toFixed2_zero: "toFixed2 0 = ''0.00''"
  by code_simp

lemma prescriptionText_plano:
  "currentSphere s = 0 \<Longrightarrow> prefix ''0.00 DS'' (prescriptionText s)"
  by (simp add: prescriptionText_def toFixed2_zero)

lemma red_green_difference:
  "getDisplayAxis (h - 45) - getDisplayAxis (h + 45) = 90 \<or>
   getDisplayAxis (h - 45) - getDisplayAxis (h + 45) = - 90"
proof -
  define q where "q = (h + 2) div 5"
  have a: "(h - 45 + 2) div 5 = q - 9" and b: "(h + 45 + 2) div 5 = q + 9"
    unfolding q_def by presburger+
  define m where "m = (q * 5 + 45) mod 180"
  have m: "0 \<le> m" "m < 180" by (simp_all add: m_def)
  have c: "(q * 5 - 45) mod 180 = (m + 90) mod 180"
  proof -
    have "(q * 5 - 45) mod 180 = (q * 5 + 45 + 90 - 180) mod 180" by simp
    also have "\<dots> = (q * 5 + 45 + 90) mod 180" by (simp only: minus_mod_self2)
    also have "\<dots> = (m + 90) mod 180" unfolding m_def by (simp only: mod_add_left_eq)
    finally show ?thesis .
  qed
  have d: "(m + 90) mod 180 = (if m < 90 then m + 90 else m - 90)"
  proof (cases "m < 90")
    case True
    with m show ?thesis by simp
  next
    case False
    have "m + 90 = m - 90 + 180" by simp
    then have "(m + 90) mod 180 = (m - 90 + 180) mod 180" by (rule arg_cong)
    also have "\<dots> = (m - 90) mod 180" by (simp only: mod_add_self2)
    also have "\<dots> = m - 90" using False m by simp
    finally show ?thesis using False by simp
  qed
  have e: "(q - 9) * 5 = q * 5 - 45" "(q + 9) * 5 = q * 5 + 45" by (simp_all add: algebra_simps)
  have green: "getDisplayAxis (h + 45) = (if m = 0 then 180 else m)"
    by (simp only: getDisplayAxis_eq b e m_def)
  have red: "getDisplayAxis (h - 45) = (if m = 90 then 180 else if m < 90 then m + 90 else m - 90)"
    using m by (simp only: getDisplayAxis_eq a e c d) simp
  show ?thesis unfolding red green using m by (simp split: if_splits)
qed


lemma getDisplayAxis_quarter_turn:
  "getDisplayAxis 90 = 90" "getDisplayAxis (- 90) = 90"
  by code_simp+


lemma checkSlider_tutorStep:
  "tutorStep (checkSliderValueForNextStep s) =
     (if (tutorStep s = 1 \<and> jccHandleAngle s = 180) \<or>
         (tutorStep s = 8 \<and> currentAxis s = 5) \<or>
         (tutorStep s = 9 \<and> jccHandleAngle s = 5) \<or>
         (tutorStep s = 17 \<and> jccHandleAngle s = getDisplayAxis (currentAxis s + 45))
      then tutorStep s + 1 else tutorStep s)"
  by (simp add: checkSliderValueForNextStep_def nextStep_tutorStep Let_def)

lemma checkSlider_values:
  "currentSphere (checkSliderValueForNextStep s) = currentSphere s"
  "currentCylinder (checkSliderValueForNextStep s) = currentCylinder s"
  "currentAxis (checkSliderValueForNextStep s) = currentAxis s"
  "jccHandleAngle (checkSliderValueForNextStep s) = jccHandleAngle s"
  unfolding checkSliderValueForNextStep_def Let_def
  by (auto simp only: nextStep_values split: if_splits)

lemma commit_values:
  "jccHandleAngle (updateJCCDisplay s) = jccHandleAngle s"
  "currentAxis (updateJCCDisplay s) = currentAxis s"
  "tutorStep (updateJCCDisplay s) = tutorStep s"
  "jccHandleAngle (updateLensDisplay s) = jccHandleAngle s"
  "currentAxis (updateLensDisplay s) = currentAxis s"
  "tutorStep (updateLensDisplay s) = tutorStep s"
  by (simp_all add: display_defs)

lemma upHandler_values:
  "jccHandleAngle (upHandler JccAxisSlider s) = getDisplayAxis (jccHandleAngle s)"
  "currentAxis (upHandler JccAxisSlider s) = currentAxis s"
  "currentAxis (upHandler LensAxisSlider s) = getDisplayAxis (currentAxis s)"
  "jccHandleAngle (upHandler LensAxisSlider s) = jccHandleAngle s"
  unfolding upHandler_def Let_def
  by (simp_all only: checkSlider_values commit_values slider.case) simp_all

lemma upHandler_tutorStep:
  "tutorStep (upHandler sliderDiv s) =
     (if (tutorStep s = 1 \<and> jccHandleAngle (upHandler sliderDiv s) = 180) \<or>
         (tutorStep s = 8 \<and> currentAxis (upHandler sliderDiv s) = 5) \<or>
         (tutorStep s = 9 \<and> jccHandleAngle (upHandler sliderDiv s) = 5) \<or>
         (tutorStep s = 17 \<and>
          jccHandleAngle (upHandler sliderDiv s) =
            getDisplayAxis (currentAxis (upHandler sliderDiv s) + 45))
      then tutorStep s + 1 else tutorStep s)"
proof (cases sliderDiv)
  case JccAxisSlider
  define c where
    "c = updateJCCDisplay (s\<lparr>isDraggingJCC := False, isDraggingLens := False,
           jccHandleAngle := getDisplayAxis (jccHandleAngle s)\<rparr>)"
  have u: "upHandler sliderDiv s = checkSliderValueForNextStep c"
    by (simp add: upHandler_def c_def JccAxisSlider)
  have c: "tutorStep c = tutorStep s" "jccHandleAngle c = getDisplayAxis (jccHandleAngle s)"
    "currentAxis c = currentAxis s"
    by (simp_all add: c_def commit_values)
  show ?thesis
    unfolding u checkSlider_tutorStep checkSlider_values c ..
next
  case LensAxisSlider
  define c where
    "c = updateLensDisplay (s\<lparr>isDraggingJCC := False, isDraggingLens := False,
           currentAxis := getDisplayAxis (currentAxis s)\<rparr>)"
  have u: "upHandler sliderDiv s = checkSliderValueForNextStep c"
    by (simp add: upHandler_def c_def LensAxisSlider)
  have c: "tutorStep c = tutorStep s" "currentAxis c = getDisplayAxis (currentAxis s)"
    "jccHandleAngle c = jccHandleAngle s"
    by (simp_all add: c_def commit_values)
  show ?thesis
    unfolding u checkSlider_tutorStep checkSlider_values c ..
qed


lemma moveHandler_frame:
  "tutorStep (moveHandler sliderDiv e s) = tutorStep s"
  "currentSphere (moveHandler sliderDiv e s) = currentSphere s"
  "currentCylinder (moveHandler sliderDiv e s) = currentCylinder s"
  "jccFlipped (moveHandler sliderDiv e s) = jccFlipped s"
  "disabledControls (moveHandler sliderDiv e s) = disabledControls s"
  "isDraggingJCC (moveHandler sliderDiv e s) = isDraggingJCC s"
  "isDraggingLens (moveHandler sliderDiv e s) = isDraggingLens s"
  "currentRXDisplay (moveHandler sliderDiv e s) = currentRXDisplay s"
  "finalRXDisplay (moveHandler sliderDiv e s) = finalRXDisplay s"
  by (cases sliderDiv;
      simp add: moveHandler_def Let_def updateValueCallback_def updateJCCRotation_def
        updateLensRotation_def setSvgThumbPosition_def)+

lemma moves_frame:
  "tutorStep (session (map (DragMove sliderDiv) moves) s) = tutorStep s \<and>
   currentSphere (session (map (DragMove sliderDiv) moves) s) = currentSphere s \<and>
   currentCylinder (session (map (DragMove sliderDiv) moves) s) = currentCylinder s \<and>
   jccFlipped (session (map (DragMove sliderDiv) moves) s) = jccFlipped s \<and>
   disabledControls (session (map (DragMove sliderDiv) moves) s) = disabledControls s \<and>
   isDraggingJCC (session (map (DragMove sliderDiv) moves) s) = isDraggingJCC s \<and>
   isDraggingLens (session (map (DragMove sliderDiv) moves) s) = isDraggingLens s"
  by (induction moves arbitrary: s) (simp_all add: moveHandler_frame)

lemma increasePower_effect:
  "currentCylinder (increasePowerClick s) = currentCylinder s - 1 / 4"
  "tutorStep (increasePowerClick s) =
     (if tutorStep s = 24 \<or> tutorStep s = 31 then tutorStep s + 1 else tutorStep s)"
  by (simp_all add: increasePowerClick_def Let_def nextStep_values nextStep_tutorStep
        updateLensDisplay_def setSvgThumbPosition_def)

lemma decreasePower_effect:
  "currentCylinder (decreasePowerClick s) = currentCylinder s + 1 / 4"
  "tutorStep (decreasePowerClick s) = tutorStep s"
  by (simp_all add: decreasePowerClick_def updateLensDisplay_def setSvgThumbPosition_def)

lemma confirm_effect:
  "tutorStep (confirmPowerClick s) =
     (if tutorStep s = 38 \<and> currentCylinder s = - (5 / 2) then tutorStep s + 1 else tutorStep s)"
  "\<not> (tutorStep s = 38 \<and> currentCylinder s = - (5 / 2)) \<Longrightarrow> confirmPowerClick s = s"
  "tutorStep (confirmAxisClick s) =
     (if tutorStep s = 16 \<and> currentAxis s = 5 then tutorStep s + 1 else tutorStep s)"
  "\<not> (tutorStep s = 16 \<and> currentAxis s = 5) \<Longrightarrow> confirmAxisClick s = s"
  by (simp_all only: confirmPowerClick_def confirmAxisClick_def nextStep_tutorStep if_distrib [of tutorStep] if_False)

lemma init_cylinder: "currentCylinder (init s0) = - 2"
  by (simp add: init_def Let_def display_defs)

lemma red_green_perpendicular:
  "getDisplayAxis (getJCCRedLineAxis s - getJCCGreenLineAxis s) = 90"
proof (cases "jccFlipped s")
  case False
  then have "getJCCRedLineAxis s - getJCCGreenLineAxis s =
      getDisplayAxis (jccHandleAngle s - 45) - getDisplayAxis (jccHandleAngle s + 45)"
    by (simp add: getJCCRedLineAxis_def getJCCGreenLineAxis_def)
  with red_green_difference [of "jccHandleAngle s"] show ?thesis
    by (auto simp only: getDisplayAxis_quarter_turn)
next
  case True
  then have e: "getJCCRedLineAxis s - getJCCGreenLineAxis s =
      - (getDisplayAxis (jccHandleAngle s - 45) - getDisplayAxis (jccHandleAngle s + 45))"
    by (simp add: getJCCRedLineAxis_def getJCCGreenLineAxis_def)
  from red_green_difference [of "jccHandleAngle s"] show ?thesis
    unfolding e by (auto simp only: getDisplayAxis_quarter_turn minus_minus)
qed

lemma toggleFlipped_swaps:
  "getJCCRedLineAxis (toggleFlipped s) = getJCCGreenLineAxis s"
  "getJCCGreenLineAxis (toggleFlipped s) = getJCCRedLineAxis s"
  by (simp_all add: getJCCRedLineAxis_def getJCCGreenLineAxis_def toggleFlipped_def)

lemma toggleFlipped_twice: "toggleFlipped (toggleFlipped s) = s"
  by (simp add: toggleFlipped_def)

lemma plano_simple_updates:
  "planoRendered s \<Longrightarrow> planoRendered (updateLensDisplay s)"
  "planoRendered s \<Longrightarrow> planoRendered (updateJCCDisplay s)"
  "planoRendered s \<Longrightarrow> planoRendered (disableAllControls s)"
  "planoRendered s \<Longrightarrow> planoRendered (showJCCNotification s)"
  "planoRendered s \<Longrightarrow> planoRendered (enterFlipStep b s)"
  by (simp_all add: planoRendered_def display_defs prescriptionText_plano Let_def)

lemma plano_enableControls: "planoRendered s \<Longrightarrow> planoRendered (enableControls cs s)"
  by (induction cs arbitrary: s) (simp_all add: planoRendered_def)

lemma plano_nextStep: "planoRendered s \<Longrightarrow> planoRendered (nextStep s)"
proof -
  assume p: "planoRendered s"
  define c where "c = disableAllControls (s\<lparr>tutorStep := tutorStep s + 1\<rparr>)"
  have c: "planoRendered c" using p by (simp add: c_def planoRendered_def disableAllControls_def)
  have f: "planoRendered (disableAllControls (c\<lparr>finalRXDisplay := Some (prescriptionText c)\<rparr>))"
    using c by (simp add: planoRendered_def disableAllControls_def prescriptionText_plano)
  have t: "planoRendered (c\<lparr>pendingTimeouts := pendingTimeouts c + 1\<rparr>)"
    using c by (simp add: planoRendered_def)
  show ?thesis
    unfolding nextStep_def c_def [symmetric] Let_def
    by (simp only: if_split plano_simple_updates plano_enableControls c f t) simp
qed

lemma plano_checkSlider: "planoRendered s \<Longrightarrow> planoRendered (checkSliderValueForNextStep s)"
  unfolding checkSliderValueForNextStep_def Let_def
  by (auto simp only: plano_nextStep split: if_splits)

lemma plano_field_updates:
  "planoRendered s \<Longrightarrow> planoRendered (s\<lparr>currentCylinder := c\<rparr>)"
  "planoRendered s \<Longrightarrow> planoRendered (s\<lparr>currentAxis := a\<rparr>)"
  "planoRendered s \<Longrightarrow> planoRendered (s\<lparr>jccHandleAngle := a\<rparr>)"
  "planoRendered s \<Longrightarrow> planoRendered (s\<lparr>jccFlipped := f\<rparr>)"
  "planoRendered s \<Longrightarrow> planoRendered (s\<lparr>disabledControls := d\<rparr>)"
  "planoRendered s \<Longrightarrow> planoRendered (s\<lparr>isDraggingJCC := f\<rparr>)"
  "planoRendered s \<Longrightarrow> planoRendered (s\<lparr>isDraggingLens := f\<rparr>)"
  "planoRendered s \<Longrightarrow> planoRendered (s\<lparr>notificationHidden := f\<rparr>)"
  "planoRendered s \<Longrightarrow> planoRendered (s\<lparr>notificationOnclick := f\<rparr>)"
  "planoRendered s \<Longrightarrow> planoRendered (s\<lparr>pendingTimeouts := n\<rparr>)"
  "planoRendered s \<Longrightarrow> planoRendered (s\<lparr>jccAngleDisplay := t\<rparr>)"
  "planoRendered s \<Longrightarrow> planoRendered (s\<lparr>lensAxisDisplay := t\<rparr>)"
  "planoRendered s \<Longrightarrow> planoRendered (s\<lparr>jccSliderThumb := v\<rparr>)"
  "planoRendered s \<Longrightarrow> planoRendered (s\<lparr>lensSliderThumb := v\<rparr>)"
  by (simp_all add: planoRendered_def)

lemma plano_moveHandler: "planoRendered s \<Longrightarrow> planoRendered (moveHandler sliderDiv e s)"
  by (simp add: planoRendered_def moveHandler_frame)

lemma plano_startDrag: "planoRendered s \<Longrightarrow> planoRendered (startDrag sliderDiv e s)"
  by (cases sliderDiv)
     (simp_all add: startDrag_def Let_def updateValueCallback_def updateJCCRotation_def
        updateLensRotation_def setSvgThumbPosition_def plano_field_updates)

lemma plano_upHandler: "planoRendered s \<Longrightarrow> planoRendered (upHandler sliderDiv s)"
  by (cases sliderDiv)
     (simp_all add: upHandler_def Let_def plano_checkSlider plano_simple_updates plano_field_updates)

lemma plano_deliver: "planoRendered s \<Longrightarrow> planoRendered (deliver e s)"
proof (cases e)
  case StartTutorial
  assume "planoRendered s"
  then show ?thesis
    by (simp add: StartTutorial startTutorialClick_def plano_nextStep plano_field_updates)
next
  case NotificationOk
  assume "planoRendered s"
  then show ?thesis
    by (simp add: NotificationOk notificationOkClick_def plano_nextStep plano_field_updates)
next
  case FlipJCCButton
  assume "planoRendered s"
  then show ?thesis
    by (simp add: FlipJCCButton flipJCCClick_def toggleFlipped_def plano_nextStep
          plano_simple_updates plano_field_updates)
next
  case IncreasePowerButton
  assume "planoRendered s"
  then show ?thesis
    by (simp add: IncreasePowerButton increasePowerClick_def Let_def plano_nextStep
          plano_simple_updates plano_field_updates)
next
  case DecreasePowerButton
  assume "planoRendered s"
  then show ?thesis
    by (simp add: DecreasePowerButton decreasePowerClick_def plano_simple_updates
          plano_field_updates)
next
  case ConfirmAxisButton
  assume "planoRendered s"
  then show ?thesis by (simp add: ConfirmAxisButton confirmAxisClick_def plano_nextStep)
next
  case ConfirmPowerButton
  assume "planoRendered s"
  then show ?thesis by (simp add: ConfirmPowerButton confirmPowerClick_def plano_nextStep)
next
  case (DragStart sliderDiv p)
  assume "planoRendered s"
  then show ?thesis by (simp add: DragStart plano_startDrag)
next
  case (DragMove sliderDiv p)
  assume "planoRendered s"
  then show ?thesis by (simp add: DragMove plano_moveHandler)
next
  case (DragRelease sliderDiv)
  assume "planoRendered s"
  then show ?thesis by (simp add: DragRelease plano_upHandler)
next
  case Timeout
  assume "planoRendered s"
  then show ?thesis
    by (simp add: Timeout timeoutFired_def plano_enableControls plano_field_updates)
qed

lemma plano_session: "planoRendered s \<Longrightarrow> planoRendered (session es s)"
  by (induction es arbitrary: s) (simp_all add: plano_deliver)

lemma plano_init: "finalRXDisplay s0 = None \<Longrightarrow> planoRendered (init s0)"
  by (simp add: init_def Let_def planoRendered_def display_defs prescriptionText_plano)

lemma enableControls_sphere: "currentSphere (enableControls cs s) = currentSphere s"
  by (induction cs arbitrary: s) simp_all

lemma deliver_sphere: "currentSphere (deliver e s) = currentSphere s"
proof (cases e)
  case (DragStart sliderDiv p)
  then show ?thesis
    by (cases sliderDiv)
       (simp_all add: startDrag_def Let_def updateValueCallback_def updateJCCRotation_def
          updateLensRotation_def setSvgThumbPosition_def)
next
  case (DragMove sliderDiv p)
  then show ?thesis by (simp add: moveHandler_frame)
next
  case (DragRelease sliderDiv)
  then show ?thesis
    by (cases sliderDiv)
       (simp_all add: upHandler_def Let_def checkSlider_values display_defs)
next
  case Timeout
  then show ?thesis by (simp add: timeoutFired_def enableControls_sphere)
qed (simp_all add: startTutorialClick_def notificationOkClick_def flipJCCClick_def
       toggleFlipped_def increasePowerClick_def decreasePowerClick_def confirmAxisClick_def
       confirmPowerClick_def Let_def nextStep_values display_defs)

lemma step_rule:
  fixes n t :: nat
  assumes "t = (if P then n + 1 else n)"
  shows "(t = n + 1 \<longleftrightarrow> P) \<and> (t = n \<or> t = n + 1) \<and> (\<not> P \<longrightarrow> t = n)"
  using assms by simp


lemma moveHandler_effect:
  "moveHandler JccAxisSlider e s =
     (if isDraggingJCC s \<or> isDraggingLens s
      then s\<lparr>jccHandleAngle := optometricAxis e,
             jccAngleDisplay := numberToString (getDisplayAxis (optometricAxis e)) @ [degreeSign],
             jccSliderThumb := rawVisualAngle360 e\<rparr>
      else s)"
  "moveHandler LensAxisSlider e s =
     (if isDraggingJCC s \<or> isDraggingLens s
      then s\<lparr>currentAxis := optometricAxis e,
             lensAxisDisplay := numberToString (getDisplayAxis (optometricAxis e)) @ [degreeSign],
             lensSliderThumb := rawVisualAngle360 e\<rparr>
      else s)"
  by (simp_all add: moveHandler_def Let_def updateValueCallback_def updateJCCRotation_def
        updateLensRotation_def setSvgThumbPosition_def)

lemma moves_not_dragging:
  "\<not> (isDraggingJCC s \<or> isDraggingLens s) \<Longrightarrow> session (map (DragMove sliderDiv) moves) s = s"
  by (induction moves) (simp_all add: moveHandler_def)

lemma moves_effect:
  assumes "isDraggingJCC s \<or> isDraggingLens s" "moves \<noteq> []"
  shows "session (map (DragMove JccAxisSlider) moves) s =
      s\<lparr>jccHandleAngle := optometricAxis (last moves),
        jccAngleDisplay := numberToString (getDisplayAxis (optometricAxis (last moves))) @ [degreeSign],
        jccSliderThumb := rawVisualAngle360 (last moves)\<rparr>"
    and "session (map (DragMove LensAxisSlider) moves) s =
      s\<lparr>currentAxis := optometricAxis (last moves),
        lensAxisDisplay := numberToString (getDisplayAxis (optometricAxis (last moves))) @ [degreeSign],
        lensSliderThumb := rawVisualAngle360 (last moves)\<rparr>"
  using assms
proof (induction moves arbitrary: s)
  case Nil
  {
    case 1 then show ?case by simp
  next
    case 2 then show ?case by simp
  }
next
  case (Cons e moves)
  {
    case 1
    show ?case
    proof (cases "moves = []")
      case True
      with 1 show ?thesis by (simp add: moveHandler_effect)
    next
      case False
      with 1 Cons.IH(1) [of "moveHandler JccAxisSlider e s"] show ?thesis
        by (simp add: moveHandler_effect)
    qed
  next
    case 2
    show ?case
    proof (cases "moves = []")
      case True
      with 2 show ?thesis by (simp add: moveHandler_effect)
    next
      case False
      with 2 Cons.IH(2) [of "moveHandler LensAxisSlider e s"] show ?thesis
        by (simp add: moveHandler_effect)
    qed
  }
qed

lemma startDrag_effect:
  "\<not> sliderDisabled JccAxisSlider t \<Longrightarrow>
     startDrag JccAxisSlider e t =
       t\<lparr>isDraggingJCC := True, jccSliderThumb := rawVisualAngle360 e,
         jccHandleAngle := getDisplayAxis (optometricAxis e)\<rparr>"
  "\<not> sliderDisabled LensAxisSlider t \<Longrightarrow>
     startDrag LensAxisSlider e t =
       t\<lparr>isDraggingLens := True, lensSliderThumb := rawVisualAngle360 e,
         currentAxis := getDisplayAxis (optometricAxis e)\<rparr>"
  by (simp_all add: startDrag_def Let_def updateValueCallback_def updateJCCRotation_def
        updateLensRotation_def setSvgThumbPosition_def)




lemma enableControls_disabled: "disabledControls (enableControls cs s) \<subseteq> disabledControls s"
proof (induction cs arbitrary: s)
  case Nil
  show ?case by simp
next
  case (Cons c cs)
  show ?case
    using Cons.IH [of "s\<lparr>disabledControls := disabledControls s - {c}\<rparr>"] Cons.IH [of s]
    by auto
qed








section \<open>Drag preview and release\<close>

text \<open>
  Claim C1, as stated, fails: a pointer move during a drag of the JCC slider writes the
  raw angle of the pointer into \<open>jccHandleAngle\<close>. Here the handle is at 90 when the
  drag starts, and one move at 37 degrees leaves it at 37, not yet snapped to 5 degrees.
\<close>

theorem preview_move_writes_handle_angle:
  "jccHandleAngle dragStarted = 90 \<and>
   jccHandleAngle
     (moveHandler JccAxisSlider \<lparr>optometricAxis = 37, rawVisualAngle360 = 323\<rparr> dragStarted) = 37"
  by code_simp

text \<open>
  Claim C1, amended. A press on an enabled slider stores the angle of the press position,
  snapped by \<open>getDisplayAxis\<close>, in the state variable of that slider
  (\<open>jccHandleAngle\<close> or \<open>currentAxis\<close>), places the thumb and marks the drag as in
  progress; it changes nothing else. While a drag is in progress every pointer move
  writes its raw, unsnapped angle into that state variable, places the thumb at the
  pointer and shows the snapped angle in the angle text of the slider; it changes nothing
  else, so after any sequence of moves the state is the one before them with these three
  fields set from the last move, and the step counter is as before. With no drag in
  progress a move changes nothing. The release snaps the state variable with
  \<open>getDisplayAxis\<close> and is the one drag event that evaluates the advance predicate, on
  the snapped value.
\<close>

theorem drag_preview_effects:
  assumes "s' = session (map (DragMove sliderDiv) moves) s"
  shows
    "(\<not> sliderDisabled JccAxisSlider t \<longrightarrow>
        startDrag JccAxisSlider e t =
          t\<lparr>isDraggingJCC := True, jccSliderThumb := rawVisualAngle360 e,
            jccHandleAngle := getDisplayAxis (optometricAxis e)\<rparr>) \<and>
     (\<not> sliderDisabled LensAxisSlider t \<longrightarrow>
        startDrag LensAxisSlider e t =
          t\<lparr>isDraggingLens := True, lensSliderThumb := rawVisualAngle360 e,
            currentAxis := getDisplayAxis (optometricAxis e)\<rparr>) \<and>
     (\<not> (isDraggingJCC s \<or> isDraggingLens s) \<or> moves = [] \<longrightarrow> s' = s) \<and>
     ((isDraggingJCC s \<or> isDraggingLens s) \<and> moves \<noteq> [] \<and> sliderDiv = JccAxisSlider \<longrightarrow>
        s' = s\<lparr>jccHandleAngle := optometricAxis (last moves),
               jccAngleDisplay :=
                 numberToString (getDisplayAxis (optometricAxis (last moves))) @ [degreeSign],
               jccSliderThumb := rawVisualAngle360 (last moves)\<rparr>) \<and>
     ((isDraggingJCC s \<or> isDraggingLens s) \<and> moves \<noteq> [] \<and> sliderDiv = LensAxisSlider \<longrightarrow>
        s' = s\<lparr>currentAxis := optometricAxis (last moves),
               lensAxisDisplay :=
                 numberToString (getDisplayAxis (optometricAxis (last moves))) @ [degreeSign],
               lensSliderThumb := rawVisualAngle360 (last moves)\<rparr>) \<and>
     tutorStep s' = tutorStep s \<and>
     jccHandleAngle (upHandler JccAxisSlider s') = getDisplayAxis (jccHandleAngle s') \<and>
     currentAxis (upHandler LensAxisSlider s') = getDisplayAxis (currentAxis s') \<and>
     (tutorStep (upHandler sliderDiv s') = tutorStep s' + 1 \<longleftrightarrow>
        (tutorStep s' = 1 \<and> jccHandleAngle (upHandler sliderDiv s') = 180) \<or>
        (tutorStep s' = 8 \<and> currentAxis (upHandler sliderDiv s') = 5) \<or>
        (tutorStep s' = 9 \<and> jccHandleAngle (upHandler sliderDiv s') = 5) \<or>
        (tutorStep s' = 17 \<and>
         jccHandleAngle (upHandler sliderDiv s') =
           getDisplayAxis (currentAxis (upHandler sliderDiv s') + 45)))"
proof -
  have press: "(\<not> sliderDisabled JccAxisSlider t \<longrightarrow>
        startDrag JccAxisSlider e t =
          t\<lparr>isDraggingJCC := True, jccSliderThumb := rawVisualAngle360 e,
            jccHandleAngle := getDisplayAxis (optometricAxis e)\<rparr>) \<and>
     (\<not> sliderDisabled LensAxisSlider t \<longrightarrow>
        startDrag LensAxisSlider e t =
          t\<lparr>isDraggingLens := True, lensSliderThumb := rawVisualAngle360 e,
            currentAxis := getDisplayAxis (optometricAxis e)\<rparr>)"
    using startDrag_effect [of t e] by blast
  have idle: "\<not> (isDraggingJCC s \<or> isDraggingLens s) \<or> moves = [] \<longrightarrow> s' = s"
    unfolding assms using moves_not_dragging [of s sliderDiv moves] by auto
  have jcc: "(isDraggingJCC s \<or> isDraggingLens s) \<and> moves \<noteq> [] \<and> sliderDiv = JccAxisSlider \<longrightarrow>
        s' = s\<lparr>jccHandleAngle := optometricAxis (last moves),
               jccAngleDisplay :=
                 numberToString (getDisplayAxis (optometricAxis (last moves))) @ [degreeSign],
               jccSliderThumb := rawVisualAngle360 (last moves)\<rparr>"
    unfolding assms using moves_effect(1) [of s moves] by blast
  have lens: "(isDraggingJCC s \<or> isDraggingLens s) \<and> moves \<noteq> [] \<and> sliderDiv = LensAxisSlider \<longrightarrow>
        s' = s\<lparr>currentAxis := optometricAxis (last moves),
               lensAxisDisplay :=
                 numberToString (getDisplayAxis (optometricAxis (last moves))) @ [degreeSign],
               lensSliderThumb := rawVisualAngle360 (last moves)\<rparr>"
    unfolding assms using moves_effect(2) [of s moves] by blast
  have step: "tutorStep s' = tutorStep s"
    unfolding assms using moves_frame [of sliderDiv moves s] by blast
  have snap: "jccHandleAngle (upHandler JccAxisSlider s') = getDisplayAxis (jccHandleAngle s') \<and>
     currentAxis (upHandler LensAxisSlider s') = getDisplayAxis (currentAxis s')"
    by (simp only: upHandler_values)
  have advance: "tutorStep (upHandler sliderDiv s') = tutorStep s' + 1 \<longleftrightarrow>
        (tutorStep s' = 1 \<and> jccHandleAngle (upHandler sliderDiv s') = 180) \<or>
        (tutorStep s' = 8 \<and> currentAxis (upHandler sliderDiv s') = 5) \<or>
        (tutorStep s' = 9 \<and> jccHandleAngle (upHandler sliderDiv s') = 5) \<or>
        (tutorStep s' = 17 \<and>
         jccHandleAngle (upHandler sliderDiv s') =
           getDisplayAxis (currentAxis (upHandler sliderDiv s') + 45))"
    using step_rule [OF upHandler_tutorStep [of sliderDiv s']] by blast
  from press idle jcc lens step snap advance show ?thesis by blast
qed

theorem drag_preview_effects_witness:
  "\<not> sliderDisabled JccAxisSlider (session [StartTutorial, Timeout] (init scriptLoaded)) \<and>
   dragStarted =
     (session [StartTutorial, Timeout] (init scriptLoaded))
       \<lparr>isDraggingJCC := True, jccSliderThumb := 270, jccHandleAngle := getDisplayAxis 90\<rparr> \<and>
   (isDraggingJCC dragStarted \<or> isDraggingLens dragStarted) \<and> previewMoves \<noteq> [] \<and>
   session (map (DragMove JccAxisSlider) previewMoves) dragStarted =
     dragStarted\<lparr>jccHandleAngle := 179, jccAngleDisplay := ''180'' @ [degreeSign],
       jccSliderThumb := 181\<rparr> \<and>
   tutorStep (session (map (DragMove JccAxisSlider) previewMoves) dragStarted) = 1 \<and>
   jccHandleAngle
     (upHandler JccAxisSlider (session (map (DragMove JccAxisSlider) previewMoves) dragStarted)) = 180 \<and>
   tutorStep
     (upHandler JccAxisSlider (session (map (DragMove JccAxisSlider) previewMoves) dragStarted)) = 2"
proof -
  define t where "t = session [StartTutorial, Timeout] (init scriptLoaded)"
  define p where "p = \<lparr>optometricAxis = 90, rawVisualAngle360 = 270 :: rat\<rparr>"
  have c: "isDraggingJCC dragStarted" "tutorStep dragStarted = 1" "previewMoves \<noteq> []"
    "optometricAxis (last previewMoves) = 179" "rawVisualAngle360 (last previewMoves) = 181"
    "numberToString (getDisplayAxis 179) = ''180''" "getDisplayAxis 179 = 180"
    "\<not> sliderDisabled JccAxisSlider (session [StartTutorial, Timeout] (init scriptLoaded))"
    by code_simp+
  have d: "dragStarted = startDrag JccAxisSlider p t"
    by (simp add: dragStarted_def t_def p_def)
  note w = drag_preview_effects [OF refl, where t = t and e = p and sliderDiv = JccAxisSlider
      and moves = previewMoves and s = dragStarted]
  from w c(8) have press: "dragStarted =
     (session [StartTutorial, Timeout] (init scriptLoaded))
       \<lparr>isDraggingJCC := True, jccSliderThumb := 270, jccHandleAngle := getDisplayAxis 90\<rparr>"
    unfolding d by (simp add: t_def p_def)
  from w c have moved: "session (map (DragMove JccAxisSlider) previewMoves) dragStarted =
     dragStarted\<lparr>jccHandleAngle := 179, jccAngleDisplay := ''180'' @ [degreeSign],
       jccSliderThumb := 181\<rparr>"
    by simp
  from w c have k: "tutorStep (session (map (DragMove JccAxisSlider) previewMoves) dragStarted) = 1"
    by simp
  have u: "jccHandleAngle
     (upHandler JccAxisSlider (session (map (DragMove JccAxisSlider) previewMoves) dragStarted)) = 180"
    by code_simp
  from w k u have "tutorStep
     (upHandler JccAxisSlider (session (map (DragMove JccAxisSlider) previewMoves) dragStarted)) =
     tutorStep (session (map (DragMove JccAxisSlider) previewMoves) dragStarted) + 1"
    by blast
  with c k u press moved show ?thesis by simp
qed

text \<open>
  Claim C3. A drag release advances the step counter by exactly one precisely when the
  step is 1 and the committed JCC handle angle is 180, or the step is 8 and the committed
  lens axis is 5, or the step is 9 and the committed handle angle is 5, or the step is 17
  and the committed handle angle is \<open>getDisplayAxis\<close> of the lens axis plus 45. In every
  other case, and so at every other step, the counter stays; the released slider's value
  is recorded, snapped by \<open>getDisplayAxis\<close>, either way.
\<close>

theorem release_advance_rule:
  "(tutorStep (upHandler sliderDiv s) = tutorStep s + 1 \<longleftrightarrow>
      (tutorStep s = 1 \<and> jccHandleAngle (upHandler sliderDiv s) = 180) \<or>
      (tutorStep s = 8 \<and> currentAxis (upHandler sliderDiv s) = 5) \<or>
      (tutorStep s = 9 \<and> jccHandleAngle (upHandler sliderDiv s) = 5) \<or>
      (tutorStep s = 17 \<and>
       jccHandleAngle (upHandler sliderDiv s) =
         getDisplayAxis (currentAxis (upHandler sliderDiv s) + 45))) \<and>
   (tutorStep (upHandler sliderDiv s) = tutorStep s \<or>
    tutorStep (upHandler sliderDiv s) = tutorStep s + 1) \<and>
   (tutorStep s \<noteq> 1 \<and> tutorStep s \<noteq> 8 \<and> tutorStep s \<noteq> 9 \<and> tutorStep s \<noteq> 17 \<longrightarrow>
      tutorStep (upHandler sliderDiv s) = tutorStep s) \<and>
   jccHandleAngle (upHandler JccAxisSlider s) = getDisplayAxis (jccHandleAngle s) \<and>
   currentAxis (upHandler LensAxisSlider s) = getDisplayAxis (currentAxis s)"
proof -
  note r = step_rule [OF upHandler_tutorStep [of sliderDiv s]]
  from r have "tutorStep (upHandler sliderDiv s) = tutorStep s + 1 \<longleftrightarrow>
      (tutorStep s = 1 \<and> jccHandleAngle (upHandler sliderDiv s) = 180) \<or>
      (tutorStep s = 8 \<and> currentAxis (upHandler sliderDiv s) = 5) \<or>
      (tutorStep s = 9 \<and> jccHandleAngle (upHandler sliderDiv s) = 5) \<or>
      (tutorStep s = 17 \<and>
       jccHandleAngle (upHandler sliderDiv s) =
         getDisplayAxis (currentAxis (upHandler sliderDiv s) + 45))"
    by blast
  moreover from r have "tutorStep (upHandler sliderDiv s) = tutorStep s \<or>
    tutorStep (upHandler sliderDiv s) = tutorStep s + 1"
    by blast
  moreover from r have
    "tutorStep s \<noteq> 1 \<and> tutorStep s \<noteq> 8 \<and> tutorStep s \<noteq> 9 \<and> tutorStep s \<noteq> 17 \<longrightarrow>
      tutorStep (upHandler sliderDiv s) = tutorStep s"
    by blast
  moreover have "jccHandleAngle (upHandler JccAxisSlider s) = getDisplayAxis (jccHandleAngle s)"
    "currentAxis (upHandler LensAxisSlider s) = getDisplayAxis (currentAxis s)"
    by (simp_all only: upHandler_values)
  ultimately show ?thesis by blast
qed

theorem release_advance_rule_witness:
  "tutorStep (session (map (DragMove JccAxisSlider) previewMoves) dragStarted) = 1 \<and>
   jccHandleAngle
     (upHandler JccAxisSlider (session (map (DragMove JccAxisSlider) previewMoves) dragStarted)) = 180 \<and>
   tutorStep
     (upHandler JccAxisSlider (session (map (DragMove JccAxisSlider) previewMoves) dragStarted)) =
   tutorStep (session (map (DragMove JccAxisSlider) previewMoves) dragStarted) + 1"
proof -
  have "tutorStep (session (map (DragMove JccAxisSlider) previewMoves) dragStarted) = 1"
    "jccHandleAngle
       (upHandler JccAxisSlider (session (map (DragMove JccAxisSlider) previewMoves) dragStarted)) = 180"
    by code_simp+
  with release_advance_rule
    [of JccAxisSlider "session (map (DragMove JccAxisSlider) previewMoves) dragStarted"]
  show ?thesis by blast
qed


section \<open>Control gating\<close>






section \<open>JCC geometry\<close>

text \<open>
  Claim C5. For a handle angle among 0, 5, ..., 180 and either flip state, the difference
  of the red and the green line axis folds to 90, so it is congruent to 90 modulo 180: the
  two lines are perpendicular. Toggling the flip state swaps the two axes.
\<close>

theorem red_green_lines_perpendicular:
  assumes "jccHandleAngle s \<in> (\<lambda>k. 5 * k) ` {0..36}"
  shows "getDisplayAxis (getJCCRedLineAxis s - getJCCGreenLineAxis s) mod 180 = 90 \<and>
     getJCCRedLineAxis (toggleFlipped s) = getJCCGreenLineAxis s \<and>
     getJCCGreenLineAxis (toggleFlipped s) = getJCCRedLineAxis s"
  by (simp only: red_green_perpendicular toggleFlipped_swaps) simp

theorem red_green_lines_perpendicular_witness:
  "jccHandleAngle (init scriptLoaded) \<in> (\<lambda>k. 5 * k) ` {0..36} \<and>
   getJCCRedLineAxis (init scriptLoaded) = 45 \<and> getJCCGreenLineAxis (init scriptLoaded) = 135 \<and>
   getDisplayAxis (getJCCRedLineAxis (init scriptLoaded) - getJCCGreenLineAxis (init scriptLoaded))
     mod 180 = 90 \<and>
   getJCCRedLineAxis (toggleFlipped (init scriptLoaded)) = getJCCGreenLineAxis (init scriptLoaded)"
proof -
  have h: "jccHandleAngle (init scriptLoaded) = 5 * 18" by code_simp
  have m: "jccHandleAngle (init scriptLoaded) \<in> (\<lambda>k. 5 * k) ` {0..36}"
    unfolding h by (rule imageI) simp
  have v: "getJCCRedLineAxis (init scriptLoaded) = 45"
    "getJCCGreenLineAxis (init scriptLoaded) = 135"
    by code_simp+
  from red_green_lines_perpendicular [OF m] m v show ?thesis by blast
qed

text \<open>
  Claim C9. Toggling the flip state twice gives back the red and the green line axis of
  the start, the handle angle being untouched: flipping is an involution on the geometry.
\<close>

theorem flip_twice_restores_lines:
  "getJCCRedLineAxis (toggleFlipped (toggleFlipped s)) = getJCCRedLineAxis s \<and>
   getJCCGreenLineAxis (toggleFlipped (toggleFlipped s)) = getJCCGreenLineAxis s \<and>
   jccHandleAngle (toggleFlipped s) = jccHandleAngle s"
  by (simp add: toggleFlipped_twice) (simp add: toggleFlipped_def)


section \<open>Power and confirmation buttons\<close>

text \<open>
  Claim C6. A click on the increase-power button lowers the cylinder by exactly 0.25 and
  advances the step counter by one exactly when the step is 24 or 31, leaving it alone
  otherwise; a click on the decrease-power button raises the cylinder by exactly 0.25
  and never changes the step counter.
\<close>

theorem power_buttons_effect:
  "currentCylinder (increasePowerClick s) = currentCylinder s - 1 / 4 \<and>
   (tutorStep (increasePowerClick s) = tutorStep s + 1 \<longleftrightarrow> tutorStep s = 24 \<or> tutorStep s = 31) \<and>
   (tutorStep s \<noteq> 24 \<and> tutorStep s \<noteq> 31 \<longrightarrow> tutorStep (increasePowerClick s) = tutorStep s) \<and>
   currentCylinder (decreasePowerClick s) = currentCylinder s + 1 / 4 \<and>
   tutorStep (decreasePowerClick s) = tutorStep s"
  using step_rule [OF increasePower_effect(2) [of s]]
  by (simp only: increasePower_effect(1) decreasePower_effect) blast

theorem power_buttons_effect_witness:
  "tutorStep (session (take 33 scriptedPath) (init scriptLoaded)) = 24 \<and>
   tutorStep (increasePowerClick (session (take 33 scriptedPath) (init scriptLoaded))) = 25 \<and>
   currentCylinder (increasePowerClick (session (take 33 scriptedPath) (init scriptLoaded))) = - (9 / 4)"
proof -
  have "tutorStep (session (take 33 scriptedPath) (init scriptLoaded)) = 24"
    "currentCylinder (session (take 33 scriptedPath) (init scriptLoaded)) = - 2"
    by code_simp+
  with power_buttons_effect [of "session (take 33 scriptedPath) (init scriptLoaded)"]
  show ?thesis by simp
qed

text \<open>
  Claim C7. A click on confirm-power advances the step counter exactly when the step is
  38 and the cylinder is -2.50, the value two increase-power clicks reach from the initial
  -2.00; otherwise it leaves the whole state as it is. Likewise a click on confirm-axis
  advances exactly when the step is 16 and the lens axis is 5, and otherwise changes
  nothing.
\<close>

theorem confirm_buttons_effect:
  "(tutorStep (confirmPowerClick s) = tutorStep s + 1 \<longleftrightarrow>
      tutorStep s = 38 \<and> currentCylinder s = - (5 / 2)) \<and>
   (\<not> (tutorStep s = 38 \<and> currentCylinder s = - (5 / 2)) \<longrightarrow> confirmPowerClick s = s) \<and>
   (tutorStep (confirmAxisClick s) = tutorStep s + 1 \<longleftrightarrow>
      tutorStep s = 16 \<and> currentAxis s = 5) \<and>
   (\<not> (tutorStep s = 16 \<and> currentAxis s = 5) \<longrightarrow> confirmAxisClick s = s) \<and>
   currentCylinder (increasePowerClick (increasePowerClick (init s0))) = - (5 / 2)"
proof -
  have "currentCylinder (increasePowerClick (increasePowerClick (init s0))) = - (5 / 2)"
    by (simp add: increasePower_effect init_cylinder)
  moreover have "tutorStep (confirmPowerClick s) = tutorStep s + 1 \<longleftrightarrow>
      tutorStep s = 38 \<and> currentCylinder s = - (5 / 2)"
    using step_rule [OF confirm_effect(1) [of s]] by blast
  moreover have "tutorStep (confirmAxisClick s) = tutorStep s + 1 \<longleftrightarrow>
      tutorStep s = 16 \<and> currentAxis s = 5"
    using step_rule [OF confirm_effect(3) [of s]] by blast
  ultimately show ?thesis using confirm_effect(2, 4) [of s] by blast
qed

theorem confirm_buttons_effect_witness:
  "tutorStep (session (butlast scriptedPath) (init scriptLoaded)) = 38 \<and>
   currentCylinder (session (butlast scriptedPath) (init scriptLoaded)) = - (5 / 2) \<and>
   tutorStep (confirmPowerClick (session (butlast scriptedPath) (init scriptLoaded))) = 39 \<and>
   \<not> (tutorStep (init scriptLoaded) = 16 \<and> currentAxis (init scriptLoaded) = 5) \<and>
   confirmAxisClick (init scriptLoaded) = init scriptLoaded"
proof -
  have "tutorStep (session (butlast scriptedPath) (init scriptLoaded)) = 38"
    "currentCylinder (session (butlast scriptedPath) (init scriptLoaded)) = - (5 / 2)"
    "tutorStep (init scriptLoaded) = 0"
    by code_simp+
  with confirm_buttons_effect [of "session (butlast scriptedPath) (init scriptLoaded)" scriptLoaded]
    confirm_buttons_effect [of "init scriptLoaded" scriptLoaded]
  show ?thesis by simp
qed


section \<open>The sphere\<close>

text \<open>
  Claim C10. No listener writes the sphere: delivering any event leaves it as it was.
  \<open>init\<close> sets it to 0.00, so in every state of a session it is 0.00, and the current
  prescription line, and the final one once it has been written, begin with "0.00 DS".
\<close>

theorem sphere_is_never_written:
  "currentSphere (deliver e s) = currentSphere s \<and>
   (finalRXDisplay s0 = None \<longrightarrow>
      currentSphere (session es (init s0)) = 0 \<and>
      prefix ''0.00 DS'' (currentRXDisplay (session es (init s0))) \<and>
      (\<forall>t. finalRXDisplay (session es (init s0)) = Some t \<longrightarrow> prefix ''0.00 DS'' t))"
proof -
  have "planoRendered (session es (init s0))" if "finalRXDisplay s0 = None"
    using that by (intro plano_session plano_init)
  then show ?thesis
    using deliver_sphere [of e s] by (auto simp add: planoRendered_def)
qed

theorem sphere_is_never_written_witness:
  "finalRXDisplay scriptLoaded = None \<and>
   currentSphere (session scriptedPath (init scriptLoaded)) = 0 \<and>
   finalRXDisplay (session scriptedPath (init scriptLoaded)) =
     Some (''0.00 DS / -2.50 DC x 5'' @ [degreeSign]) \<and>
   prefix ''0.00 DS'' (''0.00 DS / -2.50 DC x 5'' @ [degreeSign])"
proof -
  have n: "finalRXDisplay scriptLoaded = None" by code_simp
  have f: "finalRXDisplay (session scriptedPath (init scriptLoaded)) =
     Some (''0.00 DS / -2.50 DC x 5'' @ [degreeSign])" by code_simp
  from sphere_is_never_written [of StartTutorial scriptLoaded scriptLoaded scriptedPath] n f
  show ?thesis by blast
qed

end
